theory Spec2Isabelle
  imports Complex_Main "HOL-Library.Multiset"
begin

section \<open>The clickstream table\<close>

text \<open>
  The clickstream is a pandas DataFrame with one row per event. The aggregations of
  \<^verbatim>\<open>data_processor.py\<close> read six of its columns; the others (event id, user id,
  metadata) are never looked at. A frame is the list of its rows, in row order, and
  \<^verbatim>\<open>df.empty\<close> is the empty list. Timestamps are instants on an integer clock.
  Every row has a session id (no missing values).
\<close>

record event =
  session_id :: string
  timestamp :: int
  page :: string
  action :: string
  device :: string
  traffic_source :: string

text \<open>What a Python operation can raise here.\<close>

datatype py_error = IndexError | KeyError | ValueError | ZeroDivisionError

text \<open>
  Rates are Python floats obtained by dividing two integers; they are modelled by the
  exact quotient. A cell of a percentage column is either the text \<^verbatim>\<open>'N/A'\<close> or the
  text \<^verbatim>\<open>f"{r:.1%}"\<close> of a rate \<open>r\<close>; the latter is kept as \<open>Percent1 r\<close>, the
  rate it was printed from.
\<close>

datatype rate_text = NA | Percent1 rat

subsection \<open>Module constants\<close>

definition FUNNEL_STAGES :: "(string \<times> string) list" where
  "FUNNEL_STAGES =
    [(''homepage'', ''page_view''),
     (''category_page'', ''page_view''),
     (''product_page'', ''page_view''),
     (''product_page'', ''add_to_cart''),
     (''cart_page'', ''page_view''),
     (''checkout_page'', ''page_view''),
     (''payment_page'', ''page_view''),
     (''payment_page'', ''purchase'')]"

definition FUNNEL_LABELS :: "string list" where
  "FUNNEL_LABELS =
    [''Homepage Visit'',
     ''Category Page Visit'',
     ''Product Page Visit'',
     ''Add to Cart'',
     ''Cart View'',
     ''Checkout'',
     ''Payment'',
     ''Purchase'']"

subsection \<open>Library operations\<close>

text \<open>\<^verbatim>\<open>Series.nunique()\<close>: the number of distinct values.\<close>

definition nunique :: "'a list \<Rightarrow> int" where
  "nunique xs = int (length (remdups xs))"

text \<open>\<^verbatim>\<open>Series.unique()\<close>: the distinct values, in order of first appearance.\<close>

definition unique :: "'a list \<Rightarrow> 'a list" where
  "unique xs = rev (remdups (rev xs))"

text \<open>
  True division of two integers. Python raises on a zero divisor; numpy integers give
  an infinity or a NaN instead, which is the same failure value here.
\<close>

definition truediv :: "int \<Rightarrow> int \<Rightarrow> py_error + rat" where
  "truediv a b = (if b = 0 then Inl ZeroDivisionError else Inr (of_int a / of_int b))"

text \<open>Indexing a list, or \<^verbatim>\<open>DataFrame.iloc\<close>, at a non-negative position.\<close>

definition at_index :: "'a list \<Rightarrow> nat \<Rightarrow> py_error + 'a" where
  "at_index xs i = (if i < length xs then Inr (xs ! i) else Inl IndexError)"

text \<open>Sequencing of computations that may raise; a loop stops at the first error.\<close>

fun bind_err :: "py_error + 'a \<Rightarrow> ('a \<Rightarrow> py_error + 'b) \<Rightarrow> py_error + 'b" where
  "bind_err (Inl e) f = Inl e"
| "bind_err (Inr x) f = f x"

fun for_each :: "('a \<Rightarrow> py_error + 'b) \<Rightarrow> 'a list \<Rightarrow> py_error + 'b list" where
  "for_each f [] = Inr []"
| "for_each f (x # xs) =
     bind_err (f x) (\<lambda>y. bind_err (for_each f xs) (\<lambda>ys. Inr (y # ys)))"

text \<open>ASCII case mapping, for \<^verbatim>\<open>str.capitalize\<close> and \<^verbatim>\<open>str.title\<close>.\<close>

definition is_lower :: "char \<Rightarrow> bool" where
  "is_lower c \<longleftrightarrow> 97 \<le> (of_char c :: nat) \<and> (of_char c :: nat) \<le> 122"

definition is_upper :: "char \<Rightarrow> bool" where
  "is_upper c \<longleftrightarrow> 65 \<le> (of_char c :: nat) \<and> (of_char c :: nat) \<le> 90"

definition to_upper :: "char \<Rightarrow> char" where
  "to_upper c = (if is_lower c then char_of ((of_char c :: nat) - 32) else c)"

definition to_lower :: "char \<Rightarrow> char" where
  "to_lower c = (if is_upper c then char_of ((of_char c :: nat) + 32) else c)"

definition capitalize :: "string \<Rightarrow> string" where
  "capitalize s = (case s of [] \<Rightarrow> [] | c # cs \<Rightarrow> to_upper c # map to_lower cs)"

fun title_from :: "bool \<Rightarrow> string \<Rightarrow> string" where
  "title_from previous_is_cased [] = []"
| "title_from previous_is_cased (c # cs) =
     (if is_lower c then
        (if previous_is_cased then c else to_upper c) # title_from True cs
      else if is_upper c then
        (if previous_is_cased then to_lower c else c) # title_from True cs
      else c # title_from False cs)"

definition title :: "string \<Rightarrow> string" where
  "title s = title_from False s"

definition replace_char :: "char \<Rightarrow> char \<Rightarrow> string \<Rightarrow> string" where
  "replace_char old new s = map (\<lambda>c. if c = old then new else c) s"

section \<open>Funnel analysis\<close>

record funnel_row =
  Stage :: string
  Sessions :: int
  Conversion_Rate_from_Start :: rate_text
  Drop_Rate_to_Next :: rate_text

text \<open>
  The time filter of \<^verbatim>\<open>generate_funnel_analysis\<close>: \<^verbatim>\<open>None\<close> is falsy and leaves
  the frame alone, a pair \<^verbatim>\<open>(start_date, end_date)\<close> keeps the rows with
  \<^verbatim>\<open>timestamp >= start_date\<close> and \<^verbatim>\<open>timestamp <= end_date\<close>.
\<close>

definition apply_time_filter :: "event list \<Rightarrow> (int \<times> int) option \<Rightarrow> event list" where
  "apply_time_filter df time_filter =
     (case time_filter of
        None \<Rightarrow> df
      | Some (start_date, end_date) \<Rightarrow>
          filter (\<lambda>e. timestamp e \<ge> start_date \<and> timestamp e \<le> end_date) df)"

text \<open>The body of the counting loop, for one \<^verbatim>\<open>(page, action)\<close> of the stage list.\<close>

definition stage_sessions :: "event list \<Rightarrow> string \<times> string \<Rightarrow> int" where
  "stage_sessions df stage =
     (case stage of (pg, act) \<Rightarrow>
        nunique (map session_id (filter (\<lambda>e. page e = pg \<and> action e = act) df)))"

text \<open>One element of the \<^verbatim>\<open>conversion_rates\<close> comprehension.\<close>

definition conversion_rate_of :: "int \<Rightarrow> int \<Rightarrow> py_error + rat" where
  "conversion_rate_of unique_sessions cnt =
     (if unique_sessions > 0 then truediv cnt unique_sessions else Inr 0)"

text \<open>The body of the drop-rate loop at index \<open>i\<close>.\<close>

definition drop_rate_at :: "int list \<Rightarrow> nat \<Rightarrow> py_error + rat" where
  "drop_rate_at funnel_counts i =
     bind_err (at_index funnel_counts i) (\<lambda>ci.
       if ci > 0 then
         bind_err (at_index funnel_counts (i + 1)) (\<lambda>cn. truediv (ci - cn) ci)
       else Inr 0)"

text \<open>
  The DataFrame constructor on a dict of four columns: columns of different lengths
  raise \<^verbatim>\<open>ValueError\<close>, otherwise row \<open>i\<close> holds the \<open>i\<close>-th entry of each column.
\<close>

definition funnel_frame ::
  "string list \<Rightarrow> int list \<Rightarrow> rate_text list \<Rightarrow> rate_text list \<Rightarrow> py_error + funnel_row list" where
  "funnel_frame labels counts conversions drops =
     (if length counts = length labels \<and> length conversions = length labels
         \<and> length drops = length labels
      then Inr (map (\<lambda>(l, c, r, d).
                  \<lparr>Stage = l, Sessions = c, Conversion_Rate_from_Start = r,
                   Drop_Rate_to_Next = d\<rparr>)
                (zip labels (zip counts (zip conversions drops))))
      else Inl ValueError)"

text \<open>
  \<^verbatim>\<open>generate_funnel_analysis\<close>, with the two module constants it reads taken as
  parameters. The drop-rate column starts with \<^verbatim>\<open>'N/A'\<close> and then holds one rate
  per loop index.
\<close>

definition generate_funnel_analysis_on ::
  "(string \<times> string) list \<Rightarrow> string list \<Rightarrow> event list \<Rightarrow> (int \<times> int) option
     \<Rightarrow> py_error + funnel_row list" where
  "generate_funnel_analysis_on stages labels df0 time_filter =
     (if df0 = [] then Inr []
      else
        let df = apply_time_filter df0 time_filter;
            unique_sessions = nunique (map session_id df);
            funnel_counts = map (stage_sessions df) stages
        in bind_err (for_each (conversion_rate_of unique_sessions) funnel_counts)
             (\<lambda>conversion_rates.
           bind_err (for_each (drop_rate_at funnel_counts) [0 ..< length funnel_counts - 1])
             (\<lambda>rates.
           funnel_frame labels funnel_counts
             (map Percent1 conversion_rates) (NA # map Percent1 rates))))"

definition generate_funnel_analysis ::
  "event list \<Rightarrow> (int \<times> int) option \<Rightarrow> py_error + funnel_row list" where
  "generate_funnel_analysis df time_filter =
     generate_funnel_analysis_on FUNNEL_STAGES FUNNEL_LABELS df time_filter"

section \<open>Bottleneck analysis\<close>

record bottleneck_row =
  Transition :: string
  Sessions_Lost :: int
  Drop_Rate :: rate_text
  Drop_Rate_Numeric :: rat
  Severity :: string

text \<open>The separator of a transition label: a space, U+2192 in UTF-8, a space.\<close>

definition arrow :: string where
  "arrow = [CHR 0x20, CHR 0xE2, CHR 0x86, CHR 0x92, CHR 0x20]"

text \<open>
  The body of the loop over \<^verbatim>\<open>range(len(FUNNEL_LABELS) - 1)\<close>. The literals
  \<^verbatim>\<open>0.3\<close> and \<^verbatim>\<open>0.15\<close> are the fractions 3/10 and 15/100.
\<close>

definition bottleneck_entry ::
  "string list \<Rightarrow> funnel_row list \<Rightarrow> nat \<Rightarrow> py_error + bottleneck_row" where
  "bottleneck_entry labels funnel_df i =
     bind_err (at_index funnel_df i) (\<lambda>current_row.
     bind_err (at_index funnel_df (i + 1)) (\<lambda>next_row.
       let current_sessions = funnel_row.Sessions current_row;
           next_sessions = funnel_row.Sessions next_row;
           sessions_lost = current_sessions - next_sessions
       in bind_err (if current_sessions > 0 then truediv sessions_lost current_sessions
                    else Inr 0) (\<lambda>drop_rate.
          let severity = (if drop_rate > 3 / 10 then ''High''
                          else if drop_rate > 15 / 100 then ''Medium''
                          else ''Low'')
          in bind_err (at_index labels i) (\<lambda>label_i.
             bind_err (at_index labels (i + 1)) (\<lambda>label_next.
               Inr \<lparr>Transition = label_i @ arrow @ label_next,
                    Sessions_Lost = sessions_lost,
                    Drop_Rate = Percent1 drop_rate,
                    Drop_Rate_Numeric = drop_rate,
                    Severity = severity\<rparr>)))))"

definition bottleneck_data ::
  "string list \<Rightarrow> funnel_row list \<Rightarrow> py_error + bottleneck_row list" where
  "bottleneck_data labels funnel_df =
     for_each (bottleneck_entry labels funnel_df) [0 ..< length labels - 1]"

text \<open>
  \<^verbatim>\<open>sort_values('Drop_Rate_Numeric', ascending=False)\<close> is called with the default
  sorting kind, for which pandas promises the rows back in descending order of the key
  and nothing about rows with equal keys. The frames it may return for \<open>rows\<close>:
\<close>

definition sort_values_descending :: "bottleneck_row list \<Rightarrow> bottleneck_row list \<Rightarrow> bool" where
  "sort_values_descending rows out \<longleftrightarrow>
     mset out = mset rows \<and>
     sorted_wrt (\<lambda>a b. Drop_Rate_Numeric a \<ge> Drop_Rate_Numeric b) out"

text \<open>
  \<^verbatim>\<open>generate_bottleneck_analysis\<close>, with \<^verbatim>\<open>FUNNEL_LABELS\<close> as a parameter:
  \<open>res\<close> is an outcome of the call. A frame built from an empty list has no columns, so
  sorting it by a column raises \<^verbatim>\<open>KeyError\<close>.
\<close>

definition generate_bottleneck_analysis_on ::
  "string list \<Rightarrow> funnel_row list \<Rightarrow> py_error + bottleneck_row list \<Rightarrow> bool" where
  "generate_bottleneck_analysis_on labels funnel_df res \<longleftrightarrow>
     (if funnel_df = [] then res = Inr []
      else case bottleneck_data labels funnel_df of
             Inl e \<Rightarrow> res = Inl e
           | Inr rows \<Rightarrow>
               if rows = [] then res = Inl KeyError
               else (case res of
                       Inl e \<Rightarrow> False
                     | Inr out \<Rightarrow> sort_values_descending rows out))"

definition generate_bottleneck_analysis ::
  "funnel_row list \<Rightarrow> py_error + bottleneck_row list \<Rightarrow> bool" where
  "generate_bottleneck_analysis funnel_df res =
     generate_bottleneck_analysis_on FUNNEL_LABELS funnel_df res"

section \<open>Device and traffic source analysis\<close>

record device_row =
  Device :: string
  Total_Sessions :: int
  Conversions :: int
  Conversion_Rate :: rate_text
  Conversion_Rate_Numeric :: rat

record traffic_row =
  Traffic_Source :: string
  Sessions :: int
  Conversions :: int
  Conversion_Rate :: rate_text
  Conversion_Rate_Numeric :: rat

text \<open>The body of the loop over the distinct devices.\<close>

definition device_entry :: "event list \<Rightarrow> string \<Rightarrow> py_error + device_row" where
  "device_entry df dev =
     (let device_df = filter (\<lambda>e. device e = dev) df;
          total_sessions = nunique (map session_id device_df);
          purchase_sessions =
            nunique (map session_id
              (filter (\<lambda>e. page e = ''payment_page'' \<and> action e = ''purchase'') device_df))
      in bind_err (if total_sessions > 0 then truediv purchase_sessions total_sessions
                   else Inr 0) (\<lambda>conversion_rate.
           Inr \<lparr>Device = capitalize dev,
                Total_Sessions = total_sessions,
                device_row.Conversions = purchase_sessions,
                device_row.Conversion_Rate = Percent1 conversion_rate,
                device_row.Conversion_Rate_Numeric = conversion_rate\<rparr>))"

definition generate_device_analysis :: "event list \<Rightarrow> py_error + device_row list" where
  "generate_device_analysis df =
     (if df = [] then Inr []
      else for_each (device_entry df) (unique (map device df)))"

text \<open>The body of the loop over the distinct traffic sources.\<close>

definition traffic_entry :: "event list \<Rightarrow> string \<Rightarrow> py_error + traffic_row" where
  "traffic_entry df source =
     (let source_df = filter (\<lambda>e. traffic_source e = source) df;
          total_sessions = nunique (map session_id source_df);
          purchase_sessions =
            nunique (map session_id
              (filter (\<lambda>e. page e = ''payment_page'' \<and> action e = ''purchase'') source_df))
      in bind_err (if total_sessions > 0 then truediv purchase_sessions total_sessions
                   else Inr 0) (\<lambda>conversion_rate.
           Inr \<lparr>Traffic_Source = title (replace_char (CHR ''_'') (CHR '' '') source),
                traffic_row.Sessions = total_sessions,
                traffic_row.Conversions = purchase_sessions,
                traffic_row.Conversion_Rate = Percent1 conversion_rate,
                traffic_row.Conversion_Rate_Numeric = conversion_rate\<rparr>))"

definition generate_traffic_analysis :: "event list \<Rightarrow> py_error + traffic_row list" where
  "generate_traffic_analysis df =
     (if df = [] then Inr []
      else for_each (traffic_entry df) (unique (map traffic_source df)))"

section \<open>Auxiliary notions for the statements\<close>

text \<open>The guarded quotient that every rate computation of the module spells out.\<close>

definition ratio_or_zero :: "int \<Rightarrow> int \<Rightarrow> rat" where
  "ratio_or_zero num den = (if den > 0 then of_int num / of_int den else 0)"

text \<open>Row \<open>i\<close> of the funnel frame, written out from the stage counts of a frame.\<close>

definition funnel_row_at ::
  "(string \<times> string) list \<Rightarrow> string list \<Rightarrow> event list \<Rightarrow> nat \<Rightarrow> funnel_row" where
  "funnel_row_at stages labels df i =
     \<lparr>Stage = labels ! i,
      funnel_row.Sessions = stage_sessions df (stages ! i),
      Conversion_Rate_from_Start =
        Percent1 (ratio_or_zero (stage_sessions df (stages ! i)) (nunique (map session_id df))),
      Drop_Rate_to_Next =
        (if i = 0 then NA
         else Percent1 (ratio_or_zero
                (stage_sessions df (stages ! (i - 1)) - stage_sessions df (stages ! i))
                (stage_sessions df (stages ! (i - 1)))))\<rparr>"

text \<open>The rows of a returned frame; a raised error has none.\<close>

fun rows_of :: "py_error + 'a list \<Rightarrow> 'a list" where
  "rows_of (Inl e) = []"
| "rows_of (Inr rows) = rows"

subsection \<open>Sample tables\<close>

text \<open>
  Two sessions: the first views the homepage and a category page, the second enters on
  a category page. The category stage then has more sessions than the homepage stage.
\<close>

definition clicks_revisit :: "event list" where
  "clicks_revisit =
    [\<lparr>session_id = ''s1'', timestamp = 1, page = ''homepage'', action = ''page_view'',
      device = ''mobile'', traffic_source = ''direct''\<rparr>,
     \<lparr>session_id = ''s1'', timestamp = 2, page = ''category_page'', action = ''page_view'',
      device = ''mobile'', traffic_source = ''direct''\<rparr>,
     \<lparr>session_id = ''s2'', timestamp = 3, page = ''category_page'', action = ''page_view'',
      device = ''desktop'', traffic_source = ''organic_search''\<rparr>]"

text \<open>Two sessions on the homepage, one of which goes on to a category page.\<close>

definition clicks_two_visits :: "event list" where
  "clicks_two_visits =
    [\<lparr>session_id = ''s1'', timestamp = 1, page = ''homepage'', action = ''page_view'',
      device = ''mobile'', traffic_source = ''direct''\<rparr>,
     \<lparr>session_id = ''s2'', timestamp = 2, page = ''homepage'', action = ''page_view'',
      device = ''desktop'', traffic_source = ''email''\<rparr>,
     \<lparr>session_id = ''s1'', timestamp = 3, page = ''category_page'', action = ''page_view'',
      device = ''mobile'', traffic_source = ''direct''\<rparr>]"

text \<open>A single homepage view at instant 10.\<close>

definition click_at_ten :: event where
  "click_at_ten =
     \<lparr>session_id = ''s1'', timestamp = 10, page = ''homepage'', action = ''page_view'',
      device = ''tablet'', traffic_source = ''referral''\<rparr>"

text \<open>The funnel frames computed from the sample tables, without a time filter.\<close>

definition funnel_revisit :: "funnel_row list" where
  "funnel_revisit = rows_of (generate_funnel_analysis clicks_revisit None)"

definition funnel_two_visits :: "funnel_row list" where
  "funnel_two_visits = rows_of (generate_funnel_analysis clicks_two_visits None)"

text \<open>The funnel frame of a non-empty table whose events all fall outside the window.\<close>

definition funnel_idle :: "funnel_row list" where
  "funnel_idle = rows_of (generate_funnel_analysis clicks_revisit (Some (5, 6)))"

text \<open>A funnel of one stage only.\<close>

definition funnel_single :: "funnel_row list" where
  "funnel_single =
     rows_of (generate_funnel_analysis_on [(''homepage'', ''page_view'')] [''Homepage Visit'']
                clicks_revisit None)"

text \<open>
  \<open>n\<close> sessions with one event each on the given page and action; 20, 17, 10 and 7
  sessions along the funnel give transitions that lose exactly 3/20 and 3/10.
\<close>

definition visits :: "nat \<Rightarrow> string \<Rightarrow> string \<Rightarrow> event list" where
  "visits n pg act =
     map (\<lambda>k. \<lparr>session_id = replicate (Suc k) (CHR ''s''), timestamp = int k, page = pg,
               action = act, device = ''desktop'', traffic_source = ''direct''\<rparr>) [0 ..< n]"

definition clicks_thresholds :: "event list" where
  "clicks_thresholds =
     visits 20 ''homepage'' ''page_view'' @
     visits 17 ''category_page'' ''page_view'' @
     visits 10 ''product_page'' ''page_view'' @
     visits 7 ''product_page'' ''add_to_cart'' @
     visits 7 ''cart_page'' ''page_view'' @
     visits 7 ''checkout_page'' ''page_view'' @
     visits 7 ''payment_page'' ''page_view''"

definition funnel_thresholds :: "funnel_row list" where
  "funnel_thresholds = rows_of (generate_funnel_analysis clicks_thresholds None)"

text \<open>Orderings of the transition rows of the sample funnels.\<close>

definition bottlenecks_thresholds :: "bottleneck_row list" where
  "bottlenecks_thresholds =
     map (nth (rows_of (bottleneck_data FUNNEL_LABELS funnel_thresholds))) [6, 1, 2, 0, 3, 4, 5]"

definition bottlenecks_revisit :: "bottleneck_row list" where
  "bottlenecks_revisit =
     map (nth (rows_of (bottleneck_data FUNNEL_LABELS funnel_revisit))) [1, 2, 3, 4, 5, 6, 0]"

definition bottlenecks_idle_reversed :: "bottleneck_row list" where
  "bottlenecks_idle_reversed = rev (rows_of (bottleneck_data FUNNEL_LABELS funnel_idle))"

definition bottlenecks_revisit_exchanged :: "bottleneck_row list" where
  "bottlenecks_revisit_exchanged =
     map (nth (rows_of (bottleneck_data FUNNEL_LABELS funnel_revisit))) [1, 2, 3, 5, 4, 6, 0]"

text \<open>The funnel frame of the first sample table for the window from instant 1 to 2.\<close>

definition funnel_window :: "funnel_row list" where
  "funnel_window = rows_of (generate_funnel_analysis clicks_revisit (Some (1, 2)))"

subsection \<open>Segment aggregation, as the specification words it\<close>

text \<open>
  The one aggregation that both segment analyzers are claimed to instantiate, written
  after the claim and not after the code: for each distinct value of the partition
  column, the total is the number of distinct session ids among the events carrying
  that value, the conversions are the number of distinct session ids among those same
  events with page payment_page and action purchase, and the rate is conversions
  divided by total, 0 when the total is 0.
\<close>

definition segment_row :: "(event \<Rightarrow> string) \<Rightarrow> event list \<Rightarrow> string \<Rightarrow> int \<times> int \<times> rat" where
  "segment_row key df v =
     (let members = filter (\<lambda>e. key e = v) df;
          total = nunique (map session_id members);
          conversions =
            nunique (map session_id
              (filter (\<lambda>e. page e = ''payment_page'' \<and> action e = ''purchase'') members))
      in (total, conversions,
          if total = 0 then 0 else of_int conversions / of_int total))"

definition segment_conversion ::
  "(event \<Rightarrow> string) \<Rightarrow> event list \<Rightarrow> (int \<times> int \<times> rat) list" where
  "segment_conversion key df = map (segment_row key df) (unique (map key df))"

text \<open>
  The other reading of a converted session: a session attributed to the partition value
  that has a purchase event anywhere, whatever partition value that event carries.
\<close>

definition converted_anywhere :: "(event \<Rightarrow> string) \<Rightarrow> event list \<Rightarrow> string \<Rightarrow> int" where
  "converted_anywhere key df v =
     nunique (map session_id
       (filter (\<lambda>e. key e = v \<and>
                  list_ex (\<lambda>p. session_id p = session_id e \<and> page p = ''payment_page'' \<and>
                                action p = ''purchase'') df) df))"

text \<open>The numbers of a segment row, and the exchange of the two partition columns.\<close>

definition device_numbers :: "device_row \<Rightarrow> int \<times> int \<times> rat" where
  "device_numbers r =
     (Total_Sessions r, device_row.Conversions r, device_row.Conversion_Rate_Numeric r)"

definition traffic_numbers :: "traffic_row \<Rightarrow> int \<times> int \<times> rat" where
  "traffic_numbers r =
     (traffic_row.Sessions r, traffic_row.Conversions r, traffic_row.Conversion_Rate_Numeric r)"

definition swap_segments :: "event \<Rightarrow> event" where
  "swap_segments e = e\<lparr>device := traffic_source e, traffic_source := device e\<rparr>"

text \<open>
  One session that views the homepage on a mobile device, coming from organic search,
  and purchases on a desktop device, coming from an email.
\<close>

definition clicks_cross_device :: "event list" where
  "clicks_cross_device =
    [\<lparr>session_id = ''s1'', timestamp = 1, page = ''homepage'', action = ''page_view'',
      device = ''mobile'', traffic_source = ''organic_search''\<rparr>,
     \<lparr>session_id = ''s1'', timestamp = 2, page = ''payment_page'', action = ''purchase'',
      device = ''desktop'', traffic_source = ''email''\<rparr>]"

definition device_cross :: "device_row list" where
  "device_cross = rows_of (generate_device_analysis clicks_cross_device)"

definition traffic_cross :: "traffic_row list" where
  "traffic_cross = rows_of (generate_traffic_analysis clicks_cross_device)"

section \<open>Properties of the funnel analysis\<close>

lemma for_each_Inr:
  "(\<And>x. x \<in> set xs \<Longrightarrow> f x = Inr (g x)) \<Longrightarrow> for_each f xs = Inr (map g xs)"
  by (induction xs) simp_all

lemma conversion_rate_of_eq:
  "conversion_rate_of tot c = Inr (ratio_or_zero c tot)"
  by (simp add: conversion_rate_of_def truediv_def ratio_or_zero_def)

lemma drop_rate_at_eq:
  "i + 1 < length cs \<Longrightarrow>
   drop_rate_at cs i = Inr (ratio_or_zero (cs ! i - cs ! (i + 1)) (cs ! i))"
  by (simp add: drop_rate_at_def at_index_def truediv_def ratio_or_zero_def)

lemma funnel_frame_eq:
  assumes "length counts = length labels" and "length conversions = length labels"
    and "length drops = length labels"
  shows "funnel_frame labels counts conversions drops =
     Inr (map (\<lambda>i. \<lparr>Stage = labels ! i, funnel_row.Sessions = counts ! i,
                     Conversion_Rate_from_Start = conversions ! i,
                     Drop_Rate_to_Next = drops ! i\<rparr>) [0 ..< length labels])"
proof -
  have "map (\<lambda>(l, c, r, d).
                  \<lparr>Stage = l, funnel_row.Sessions = c, Conversion_Rate_from_Start = r,
                   Drop_Rate_to_Next = d\<rparr>)
                (zip labels (zip counts (zip conversions drops))) =
        map (\<lambda>i. \<lparr>Stage = labels ! i, funnel_row.Sessions = counts ! i,
                     Conversion_Rate_from_Start = conversions ! i,
                     Drop_Rate_to_Next = drops ! i\<rparr>) [0 ..< length labels]"
    by (rule nth_equalityI) (simp_all add: assms)
  then show ?thesis by (simp add: funnel_frame_def assms)
qed

text \<open>The three outcomes of the funnel analysis.\<close>

lemma funnel_cases:
  "generate_funnel_analysis_on stages labels df0 time_filter =
     (if df0 = [] then Inr []
      else if stages \<noteq> [] \<and> length labels = length stages
      then Inr (map (funnel_row_at stages labels (apply_time_filter df0 time_filter))
                  [0 ..< length stages])
      else Inl ValueError)"
proof (cases "df0 = []")
  case True
  then show ?thesis by (simp add: generate_funnel_analysis_on_def)
next
  case False
  define df where "df = apply_time_filter df0 time_filter"
  define cs where "cs = map (stage_sessions df) stages"
  define tot where "tot = nunique (map session_id df)"
  define drops where "drops =
    NA # map Percent1 (map (\<lambda>i. ratio_or_zero (cs ! i - cs ! (i + 1)) (cs ! i))
                         [0 ..< length stages - 1])"
  have len: "length cs = length stages" by (simp add: cs_def)
  have conv: "for_each (conversion_rate_of tot) cs = Inr (map (\<lambda>c. ratio_or_zero c tot) cs)"
    by (rule for_each_Inr) (simp add: conversion_rate_of_eq)
  have rates: "for_each (drop_rate_at cs) [0 ..< length stages - 1] =
      Inr (map (\<lambda>i. ratio_or_zero (cs ! i - cs ! (i + 1)) (cs ! i)) [0 ..< length stages - 1])"
    by (rule for_each_Inr) (simp add: drop_rate_at_eq len)
  have run: "generate_funnel_analysis_on stages labels df0 time_filter =
      funnel_frame labels cs (map Percent1 (map (\<lambda>c. ratio_or_zero c tot) cs)) drops"
    using False conv rates
    by (simp add: generate_funnel_analysis_on_def Let_def df_def [symmetric]
        cs_def [symmetric] tot_def [symmetric] drops_def)
  have ldrops: "length drops = Suc (length stages - 1)" by (simp add: drops_def)
  show ?thesis
  proof (cases "stages \<noteq> [] \<and> length labels = length stages")
    case True
    then have n: "0 < length stages" by simp
    have "funnel_frame labels cs (map Percent1 (map (\<lambda>c. ratio_or_zero c tot) cs)) drops =
        Inr (map (funnel_row_at stages labels df) [0 ..< length stages])"
      using n len True ldrops
      by (subst funnel_frame_eq)
         (auto simp: funnel_row_at_def cs_def tot_def drops_def nth_Cons')
    with run False True show ?thesis by (simp add: df_def)
  next
    case bad: False
    have "funnel_frame labels cs (map Percent1 (map (\<lambda>c. ratio_or_zero c tot) cs)) drops =
        Inl ValueError"
      using bad len ldrops by (auto simp: funnel_frame_def)
    with run False bad show ?thesis by simp
  qed
qed

lemma funnel_rows_nonempty:
  assumes "generate_funnel_analysis_on stages labels df0 time_filter = Inr rows"
    and "i < length rows"
  shows "df0 \<noteq> []" and "stages \<noteq> []" and "length labels = length stages"
    and "length rows = length stages"
    and "rows ! i = funnel_row_at stages labels (apply_time_filter df0 time_filter) i"
  using assms by (auto simp: funnel_cases split: if_splits)

lemma nunique_card: "nunique xs = int (card (set xs))"
  by (simp add: nunique_def length_remdups_card_conv)

lemma stage_sessions_card:
  "stage_sessions df (pg, act) =
     int (card (session_id ` {e \<in> set df. page e = pg \<and> action e = act}))"
  by (simp add: stage_sessions_def nunique_card)

lemma stage_sessions_bounds:
  "0 \<le> stage_sessions df stage" "stage_sessions df stage \<le> nunique (map session_id df)"
proof -
  obtain pg act where st: "stage = (pg, act)" by (cases stage)
  show "0 \<le> stage_sessions df stage" by (simp add: st stage_sessions_card)
  have "card (session_id ` {e \<in> set df. page e = pg \<and> action e = act})
          \<le> card (session_id ` set df)"
    by (rule card_mono) auto
  then show "stage_sessions df stage \<le> nunique (map session_id df)"
    by (simp add: st stage_sessions_card nunique_card)
qed

lemma ratio_or_zero_unit:
  "0 \<le> c \<Longrightarrow> c \<le> t \<Longrightarrow> 0 \<le> ratio_or_zero c t \<and> ratio_or_zero c t \<le> 1"
  by (simp add: ratio_or_zero_def)

lemma ratio_or_zero_drop:
  "0 \<le> a \<Longrightarrow> 0 \<le> b \<Longrightarrow>
   ratio_or_zero (a - b) a \<le> 1 \<and> (0 \<le> ratio_or_zero (a - b) a \<longleftrightarrow> a = 0 \<or> b \<le> a)"
  by (auto simp: ratio_or_zero_def divide_simps)

lemma stage_sessions_Nil: "stage_sessions [] stage = 0"
  by (cases stage) (simp add: stage_sessions_def nunique_def)

lemma funnel_row_at_Nil:
  "funnel_row_at stages labels [] i =
     \<lparr>Stage = labels ! i, funnel_row.Sessions = 0,
      Conversion_Rate_from_Start = Percent1 0,
      Drop_Rate_to_Next = (if i = 0 then NA else Percent1 0)\<rparr>"
  by (simp add: funnel_row_at_def stage_sessions_Nil ratio_or_zero_def)

subsection \<open>C1: number of rows, and the empty table\<close>

text \<open>
  C1, as stated, fails: for an empty event table the function returns an empty frame,
  not one row per stage.
\<close>

theorem empty_table_gives_no_rows:
  "generate_funnel_analysis [] None = Inr [] \<and>
   length (rows_of (generate_funnel_analysis [] None)) \<noteq> length FUNNEL_STAGES"
  by (simp add: generate_funnel_analysis_def generate_funnel_analysis_on_def FUNNEL_STAGES_def)

text \<open>
  C1, amended: for a stage list of length at least 1 with as many labels, the funnel
  analysis of an empty event table is the empty frame, returned without an error; the
  analysis of a non-empty event table returns exactly one row per stage without an
  error, and when the time filter leaves no event every one of these rows has session
  count 0, conversion rate 0 and drop rate 0 (the first row has \<^verbatim>\<open>'N/A'\<close> there).
\<close>

theorem funnel_row_count:
  assumes "stages \<noteq> []" and "length labels = length stages"
  shows "generate_funnel_analysis_on stages labels [] time_filter = Inr [] \<and>
    (df \<noteq> [] \<longrightarrow>
      (\<exists>rows. generate_funnel_analysis_on stages labels df time_filter = Inr rows \<and>
         length rows = length stages \<and>
         (apply_time_filter df time_filter = [] \<longrightarrow>
            (\<forall>i < length rows.
               funnel_row.Sessions (rows ! i) = 0 \<and>
               Conversion_Rate_from_Start (rows ! i) = Percent1 0 \<and>
               Drop_Rate_to_Next (rows ! i) = (if i = 0 then NA else Percent1 0)))))"
  using assms by (simp add: funnel_cases funnel_row_at_Nil)

theorem funnel_row_count_witness:
  "FUNNEL_STAGES \<noteq> [] \<and> length FUNNEL_LABELS = length FUNNEL_STAGES \<and>
   clicks_revisit \<noteq> [] \<and> apply_time_filter clicks_revisit (Some (5, 6)) = [] \<and>
   length (rows_of (generate_funnel_analysis clicks_revisit (Some (5, 6)))) = 8 \<and>
   map funnel_row.Sessions (rows_of (generate_funnel_analysis clicks_revisit (Some (5, 6))))
     = [0, 0, 0, 0, 0, 0, 0, 0]"
proof -
  have h1: "FUNNEL_STAGES \<noteq> []" by (simp add: FUNNEL_STAGES_def)
  have h2: "length FUNNEL_LABELS = length FUNNEL_STAGES"
    by (simp add: FUNNEL_STAGES_def FUNNEL_LABELS_def)
  have h3: "clicks_revisit \<noteq> []" by (simp add: clicks_revisit_def)
  have h4: "apply_time_filter clicks_revisit (Some (5, 6)) = []"
    by (simp add: clicks_revisit_def apply_time_filter_def)
  have n: "length FUNNEL_STAGES = 8" by (simp add: FUNNEL_STAGES_def)
  from funnel_row_count [OF h1 h2, where df = clicks_revisit and time_filter = "Some (5, 6)"]
    h3 h4
  obtain rows where
    r: "generate_funnel_analysis clicks_revisit (Some (5, 6)) = Inr rows"
    and l: "length rows = 8"
    and z: "\<forall>i < length rows. funnel_row.Sessions (rows ! i) = 0"
    by (auto simp: generate_funnel_analysis_def n)
  have "map funnel_row.Sessions rows = replicate 8 0"
    using l z by (intro nth_equalityI) simp_all
  then have "map funnel_row.Sessions rows = [0, 0, 0, 0, 0, 0, 0, 0]"
    by (simp add: numeral_eq_Suc)
  with h1 h2 h3 h4 r l show ?thesis by simp
qed

subsection \<open>C2: where the drop rates are written\<close>

text \<open>
  C2, as stated, fails: with two sessions on the homepage and one of them on a category
  page, the rate of the first transition, 1/2, is on the second row, the first row has
  the placeholder and the last row has a rate.
\<close>

theorem drop_rate_column_is_shifted:
  "map funnel_row.Sessions funnel_two_visits = [2, 1, 0, 0, 0, 0, 0, 0] \<and>
   map Drop_Rate_to_Next funnel_two_visits =
     [NA, Percent1 (1 / 2), Percent1 1, Percent1 0, Percent1 0, Percent1 0, Percent1 0,
      Percent1 0] \<and>
   Drop_Rate_to_Next (funnel_two_visits ! 0) \<noteq> Percent1 (1 / 2) \<and>
   Drop_Rate_to_Next (last funnel_two_visits) \<noteq> NA"
  by code_simp

text \<open>
  C2, amended: in the funnel frame that is returned, the first row carries the
  placeholder \<^verbatim>\<open>'N/A'\<close>, and for every index \<open>i\<close> strictly before the last stage the
  row of stage \<open>i + 1\<close> carries the percentage text of
  \<open>(count i - count (i + 1)) / count i\<close>, or of 0 when \<open>count i\<close> is 0; so the
  placeholder is on the first row only.
\<close>

theorem drop_rate_sits_on_later_row:
  assumes "generate_funnel_analysis_on stages labels df time_filter = Inr rows"
    and "i + 1 < length rows"
  shows "Drop_Rate_to_Next (rows ! 0) = NA \<and>
    Drop_Rate_to_Next (rows ! (i + 1)) =
      Percent1 (if funnel_row.Sessions (rows ! i) > 0
                then of_int (funnel_row.Sessions (rows ! i) - funnel_row.Sessions (rows ! (i + 1)))
                       / of_int (funnel_row.Sessions (rows ! i))
                else 0)"
proof -
  note row = funnel_rows_nonempty(5) [OF assms(1)]
  have r0: "rows ! 0 = funnel_row_at stages labels (apply_time_filter df time_filter) 0"
    using assms(2) by (intro row) auto
  have ri: "rows ! i = funnel_row_at stages labels (apply_time_filter df time_filter) i"
    using assms(2) by (intro row) auto
  have rn: "rows ! (i + 1) =
      funnel_row_at stages labels (apply_time_filter df time_filter) (i + 1)"
    using assms(2) by (intro row) auto
  show ?thesis unfolding r0 ri rn by (simp add: funnel_row_at_def ratio_or_zero_def)
qed

theorem drop_rate_sits_on_later_row_witness:
  "generate_funnel_analysis_on FUNNEL_STAGES FUNNEL_LABELS clicks_two_visits None
     = Inr funnel_two_visits \<and>
   0 + 1 < length funnel_two_visits \<and>
   Drop_Rate_to_Next (funnel_two_visits ! 0) = NA \<and>
   Drop_Rate_to_Next (funnel_two_visits ! 1) = Percent1 (1 / 2)"
proof -
  have h1: "generate_funnel_analysis_on FUNNEL_STAGES FUNNEL_LABELS clicks_two_visits None
     = Inr funnel_two_visits"
    by code_simp
  have h2: "0 + 1 < length funnel_two_visits" by code_simp
  have c: "map funnel_row.Sessions funnel_two_visits = [2, 1, 0, 0, 0, 0, 0, 0]"
    by code_simp
  have c0: "funnel_row.Sessions (funnel_two_visits ! 0) = 2"
    and c1: "funnel_row.Sessions (funnel_two_visits ! 1) = 1"
    by code_simp+
  from drop_rate_sits_on_later_row [OF h1 h2] h1 h2 c0 c1 show ?thesis by simp
qed

subsection \<open>C3: stage counts are presence tests\<close>

text \<open>
  C3: in the funnel frame that is returned, the session count of a stage is the number
  of distinct session ids that have at least one event, among the events kept by the
  time filter, whose page and action both equal the stage's pair (wherever that event
  stands in the table), and the conversion rate of the stage is the percentage text of
  that count divided by the number of distinct session ids among all kept events, or
  of 0 when that number is 0.
\<close>

theorem stage_count_is_presence:
  assumes "generate_funnel_analysis_on stages labels df time_filter = Inr rows"
    and "i < length rows"
  shows "funnel_row.Sessions (rows ! i) =
      int (card (session_id `
        {e \<in> set (apply_time_filter df time_filter).
           page e = fst (stages ! i) \<and> action e = snd (stages ! i)})) \<and>
    Conversion_Rate_from_Start (rows ! i) =
      Percent1
        (if card (session_id ` set (apply_time_filter df time_filter)) = 0 then 0
         else of_nat (card (session_id `
                {e \<in> set (apply_time_filter df time_filter).
                   page e = fst (stages ! i) \<and> action e = snd (stages ! i)}))
              / of_nat (card (session_id ` set (apply_time_filter df time_filter))))"
proof -
  define kept where "kept = apply_time_filter df time_filter"
  have row: "rows ! i = funnel_row_at stages labels kept i"
    using funnel_rows_nonempty(5) [OF assms] by (simp add: kept_def)
  have cnt: "stage_sessions kept (stages ! i) =
      int (card (session_id `
        {e \<in> set kept. page e = fst (stages ! i) \<and> action e = snd (stages ! i)}))"
    using stage_sessions_card [of kept "fst (stages ! i)" "snd (stages ! i)"] by simp
  have tot: "nunique (map session_id kept) = int (card (session_id ` set kept))"
    by (simp add: nunique_card)
  show ?thesis
    unfolding kept_def [symmetric] row
    by (simp add: funnel_row_at_def cnt tot ratio_or_zero_def)
qed

theorem stage_count_is_presence_witness:
  "generate_funnel_analysis_on FUNNEL_STAGES FUNNEL_LABELS clicks_revisit None
     = Inr funnel_revisit \<and>
   1 < length funnel_revisit \<and>
   funnel_row.Sessions (funnel_revisit ! 1) = 2 \<and>
   int (card (session_id `
        {e \<in> set (apply_time_filter clicks_revisit None).
           page e = fst (FUNNEL_STAGES ! 1) \<and> action e = snd (FUNNEL_STAGES ! 1)})) = 2"
proof -
  have h1: "generate_funnel_analysis_on FUNNEL_STAGES FUNNEL_LABELS clicks_revisit None
     = Inr funnel_revisit"
    by code_simp
  have h2: "1 < length funnel_revisit" by code_simp
  have c: "funnel_row.Sessions (funnel_revisit ! 1) = 2" by code_simp
  from stage_count_is_presence [OF h1 h2] h1 h2 c show ?thesis by simp
qed

subsection \<open>C4: range of the rates\<close>

text \<open>
  C4, as stated, fails: when a later stage has more sessions than the stage before it
  (here 2 after 1), the drop rate written for that transition is negative.
\<close>

theorem revisit_gives_negative_drop_rate:
  "map funnel_row.Sessions funnel_revisit = [1, 2, 0, 0, 0, 0, 0, 0] \<and>
   Drop_Rate_to_Next (funnel_revisit ! 1) = Percent1 (- 1) \<and>
   \<not> (0 \<le> (- 1 :: rat))"
  by code_simp

text \<open>
  C4, amended: in the funnel frame that is returned, every conversion rate from start
  lies in the closed interval [0,1]; every drop rate is at most 1, and it is
  non-negative exactly when the earlier stage's count is 0 or the later stage's count
  does not exceed the earlier one's. With a non-zero earlier count and a larger later
  count the drop rate is negative; the frame is returned all the same.
\<close>

theorem funnel_rate_ranges:
  assumes "generate_funnel_analysis_on stages labels df time_filter = Inr rows"
    and "i < length rows"
  shows "(\<exists>r. Conversion_Rate_from_Start (rows ! i) = Percent1 r \<and> 0 \<le> r \<and> r \<le> 1) \<and>
    (i + 1 < length rows \<longrightarrow>
       (\<exists>d. Drop_Rate_to_Next (rows ! (i + 1)) = Percent1 d \<and> d \<le> 1 \<and>
            (0 \<le> d \<longleftrightarrow> funnel_row.Sessions (rows ! i) = 0 \<or>
               funnel_row.Sessions (rows ! (i + 1)) \<le> funnel_row.Sessions (rows ! i))))"
proof -
  define kept where "kept = apply_time_filter df time_filter"
  note row = funnel_rows_nonempty(5) [OF assms(1), folded kept_def]
  have ri: "rows ! i = funnel_row_at stages labels kept i"
    using assms(2) by (rule row)
  have conv: "\<exists>r. Conversion_Rate_from_Start (rows ! i) = Percent1 r \<and> 0 \<le> r \<and> r \<le> 1"
    unfolding ri
    using ratio_or_zero_unit [OF stage_sessions_bounds, of kept "stages ! i"]
    by (simp add: funnel_row_at_def)
  have drop: "\<exists>d. Drop_Rate_to_Next (rows ! (i + 1)) = Percent1 d \<and> d \<le> 1 \<and>
            (0 \<le> d \<longleftrightarrow> funnel_row.Sessions (rows ! i) = 0 \<or>
               funnel_row.Sessions (rows ! (i + 1)) \<le> funnel_row.Sessions (rows ! i))"
    if "i + 1 < length rows"
  proof -
    have rn: "rows ! (i + 1) = funnel_row_at stages labels kept (i + 1)"
      using that by (rule row)
    show ?thesis
      unfolding ri rn
      using ratio_or_zero_drop [OF stage_sessions_bounds(1) stage_sessions_bounds(1),
          of kept "stages ! i" kept "stages ! (i + 1)"]
      by (simp add: funnel_row_at_def)
  qed
  from conv drop show ?thesis by blast
qed

theorem funnel_rate_ranges_witness:
  "generate_funnel_analysis_on FUNNEL_STAGES FUNNEL_LABELS clicks_revisit None
     = Inr funnel_revisit \<and>
   0 < length funnel_revisit \<and> 0 + 1 < length funnel_revisit \<and>
   Conversion_Rate_from_Start (funnel_revisit ! 0) = Percent1 (1 / 2) \<and>
   Drop_Rate_to_Next (funnel_revisit ! (0 + 1)) = Percent1 (- 1) \<and>
   \<not> funnel_row.Sessions (funnel_revisit ! (0 + 1)) \<le> funnel_row.Sessions (funnel_revisit ! 0)"
proof -
  have h1: "generate_funnel_analysis_on FUNNEL_STAGES FUNNEL_LABELS clicks_revisit None
     = Inr funnel_revisit"
    by code_simp
  have h2: "0 < length funnel_revisit" by code_simp
  have h3: "0 + 1 < length funnel_revisit" by code_simp
  have c: "Conversion_Rate_from_Start (funnel_revisit ! 0) = Percent1 (1 / 2)"
    "Drop_Rate_to_Next (funnel_revisit ! (0 + 1)) = Percent1 (- 1)"
    "\<not> funnel_row.Sessions (funnel_revisit ! (0 + 1)) \<le> funnel_row.Sessions (funnel_revisit ! 0)"
    by code_simp+
  from funnel_rate_ranges [OF h1 h2] h1 h2 h3 c show ?thesis by blast
qed

subsection \<open>C7: the time window\<close>

text \<open>
  C7, as stated, fails: an event whose timestamp equals the end of the window is kept
  and counted.
\<close>

theorem event_at_window_end_is_kept:
  "timestamp click_at_ten = 10 \<and>
   apply_time_filter [click_at_ten] (Some (0, 10)) = [click_at_ten] \<and>
   map funnel_row.Sessions (rows_of (generate_funnel_analysis [click_at_ten] (Some (0, 10))))
     = [1, 0, 0, 0, 0, 0, 0, 0]"
  by code_simp

text \<open>
  C7, amended: when a time window (start, end) is supplied, an event is kept for the
  aggregation if and only if its timestamp lies in the closed interval [start, end];
  timestamps equal to start and timestamps equal to end are both included. In terms of
  the result: when some event lies in the closed interval, the funnel frame computed
  with the window is the frame computed without a window from exactly the events of
  the closed interval; and in every frame computed with the window, the session count
  of a stage is the number of distinct session ids with a matching event in the closed
  interval, and its conversion rate is that count over the number of distinct session
  ids of all events in the closed interval (0 when there is none).
\<close>

theorem time_filter_is_closed_interval:
  "(filter (\<lambda>e. start_date \<le> timestamp e \<and> timestamp e \<le> end_date) df \<noteq> [] \<longrightarrow>
      generate_funnel_analysis_on stages labels df (Some (start_date, end_date)) =
      generate_funnel_analysis_on stages labels
        (filter (\<lambda>e. start_date \<le> timestamp e \<and> timestamp e \<le> end_date) df) None) \<and>
   (generate_funnel_analysis_on stages labels df (Some (start_date, end_date)) = Inr rows \<and>
    i < length rows \<longrightarrow>
      funnel_row.Sessions (rows ! i) =
        int (card (session_id `
          {e \<in> set df. start_date \<le> timestamp e \<and> timestamp e \<le> end_date \<and>
             page e = fst (stages ! i) \<and> action e = snd (stages ! i)})) \<and>
      Conversion_Rate_from_Start (rows ! i) =
        Percent1
          (if card (session_id `
                {e \<in> set df. start_date \<le> timestamp e \<and> timestamp e \<le> end_date}) = 0
           then 0
           else of_nat (card (session_id `
                  {e \<in> set df. start_date \<le> timestamp e \<and> timestamp e \<le> end_date \<and>
                     page e = fst (stages ! i) \<and> action e = snd (stages ! i)}))
                / of_nat (card (session_id `
                    {e \<in> set df. start_date \<le> timestamp e \<and> timestamp e \<le> end_date}))))"
proof (intro conjI impI)
  define kept where
    "kept = filter (\<lambda>e. start_date \<le> timestamp e \<and> timestamp e \<le> end_date) df"
  have k: "apply_time_filter df (Some (start_date, end_date)) = kept"
    by (simp add: apply_time_filter_def kept_def)
  have k0: "apply_time_filter kept None = kept" by (simp add: apply_time_filter_def)
  {
    assume "filter (\<lambda>e. start_date \<le> timestamp e \<and> timestamp e \<le> end_date) df \<noteq> []"
    then have ne: "kept \<noteq> []" "df \<noteq> []" by (auto simp: kept_def)
    then show "generate_funnel_analysis_on stages labels df (Some (start_date, end_date)) =
      generate_funnel_analysis_on stages labels
        (filter (\<lambda>e. start_date \<le> timestamp e \<and> timestamp e \<le> end_date) df) None"
      unfolding kept_def [symmetric] by (simp add: funnel_cases k k0)
  }
  assume "generate_funnel_analysis_on stages labels df (Some (start_date, end_date)) = Inr rows \<and>
    i < length rows"
  then have a: "generate_funnel_analysis_on stages labels df (Some (start_date, end_date)) = Inr rows"
    and b: "i < length rows" by simp_all
  have row: "rows ! i = funnel_row_at stages labels kept i"
    using funnel_rows_nonempty(5) [OF a b] by (simp add: k)
  have s1: "{e \<in> set df. start_date \<le> timestamp e \<and> timestamp e \<le> end_date \<and>
             page e = fst (stages ! i) \<and> action e = snd (stages ! i)}
      = {e \<in> set kept. page e = fst (stages ! i) \<and> action e = snd (stages ! i)}"
    by (auto simp: kept_def)
  have s2: "{e \<in> set df. start_date \<le> timestamp e \<and> timestamp e \<le> end_date} = set kept"
    by (auto simp: kept_def)
  have cnt: "stage_sessions kept (stages ! i) =
      int (card (session_id `
        {e \<in> set kept. page e = fst (stages ! i) \<and> action e = snd (stages ! i)}))"
    using stage_sessions_card [of kept "fst (stages ! i)" "snd (stages ! i)"] by simp
  have tot: "nunique (map session_id kept) = int (card (session_id ` set kept))"
    by (simp add: nunique_card)
  show "funnel_row.Sessions (rows ! i) =
        int (card (session_id `
          {e \<in> set df. start_date \<le> timestamp e \<and> timestamp e \<le> end_date \<and>
             page e = fst (stages ! i) \<and> action e = snd (stages ! i)}))"
    unfolding s1 row by (simp add: funnel_row_at_def cnt)
  show "Conversion_Rate_from_Start (rows ! i) =
        Percent1
          (if card (session_id `
                {e \<in> set df. start_date \<le> timestamp e \<and> timestamp e \<le> end_date}) = 0
           then 0
           else of_nat (card (session_id `
                  {e \<in> set df. start_date \<le> timestamp e \<and> timestamp e \<le> end_date \<and>
                     page e = fst (stages ! i) \<and> action e = snd (stages ! i)}))
                / of_nat (card (session_id `
                    {e \<in> set df. start_date \<le> timestamp e \<and> timestamp e \<le> end_date})))"
    unfolding s1 s2 row by (simp add: funnel_row_at_def cnt tot ratio_or_zero_def)
qed

theorem time_filter_is_closed_interval_witness:
  "filter (\<lambda>e. 1 \<le> timestamp e \<and> timestamp e \<le> 2) clicks_revisit \<noteq> [] \<and>
   generate_funnel_analysis_on FUNNEL_STAGES FUNNEL_LABELS clicks_revisit (Some (1, 2))
     = Inr funnel_window \<and>
   1 < length funnel_window \<and>
   generate_funnel_analysis_on FUNNEL_STAGES FUNNEL_LABELS clicks_revisit (Some (1, 2)) =
     generate_funnel_analysis_on FUNNEL_STAGES FUNNEL_LABELS
       (filter (\<lambda>e. 1 \<le> timestamp e \<and> timestamp e \<le> 2) clicks_revisit) None \<and>
   map funnel_row.Sessions funnel_window = [1, 1, 0, 0, 0, 0, 0, 0] \<and>
   map funnel_row.Sessions funnel_revisit = [1, 2, 0, 0, 0, 0, 0, 0] \<and>
   int (card (session_id `
      {e \<in> set clicks_revisit. 1 \<le> timestamp e \<and> timestamp e \<le> 2 \<and>
         page e = fst (FUNNEL_STAGES ! 1) \<and> action e = snd (FUNNEL_STAGES ! 1)})) = 1"
proof -
  have h0: "filter (\<lambda>e. 1 \<le> timestamp e \<and> timestamp e \<le> 2) clicks_revisit \<noteq> []"
    by (simp add: clicks_revisit_def)
  have h1: "generate_funnel_analysis_on FUNNEL_STAGES FUNNEL_LABELS clicks_revisit
      (Some (1, 2)) = Inr funnel_window"
    by code_simp
  have h2: "1 < length funnel_window" by code_simp
  have c: "map funnel_row.Sessions funnel_window = [1, 1, 0, 0, 0, 0, 0, 0]"
    "map funnel_row.Sessions funnel_revisit = [1, 2, 0, 0, 0, 0, 0, 0]"
    "funnel_row.Sessions (funnel_window ! 1) = 1"
    by code_simp+
  note t = time_filter_is_closed_interval [where stages = FUNNEL_STAGES
      and labels = FUNNEL_LABELS and df = clicks_revisit and start_date = 1 and end_date = 2
      and rows = funnel_window and i = 1]
  from t h0
  have e: "generate_funnel_analysis_on FUNNEL_STAGES FUNNEL_LABELS clicks_revisit
        (Some (1, 2)) =
      generate_funnel_analysis_on FUNNEL_STAGES FUNNEL_LABELS
        (filter (\<lambda>e. 1 \<le> timestamp e \<and> timestamp e \<le> 2) clicks_revisit) None"
    by blast
  from t h1 h2
  have "funnel_row.Sessions (funnel_window ! 1) =
      int (card (session_id `
        {e \<in> set clicks_revisit. 1 \<le> timestamp e \<and> timestamp e \<le> 2 \<and>
           page e = fst (FUNNEL_STAGES ! 1) \<and> action e = snd (FUNNEL_STAGES ! 1)}))"
    by blast
  with c(3)
  have k: "int (card (session_id `
        {e \<in> set clicks_revisit. 1 \<le> timestamp e \<and> timestamp e \<le> 2 \<and>
           page e = fst (FUNNEL_STAGES ! 1) \<and> action e = snd (FUNNEL_STAGES ! 1)})) = 1"
    by simp
  from h0 h1 h2 e c(1,2) k show ?thesis by blast
qed

section \<open>Properties of the bottleneck analysis\<close>

lemma bind_err_Inr_iff:
  "bind_err m f = Inr y \<longleftrightarrow> (\<exists>x. m = Inr x \<and> f x = Inr y)"
  by (cases m) simp_all

lemma bind_err_Inl_iff:
  "bind_err m f = Inl e \<longleftrightarrow> m = Inl e \<or> (\<exists>x. m = Inr x \<and> f x = Inl e)"
  by (cases m) simp_all

lemma for_each_InrD:
  "for_each f xs = Inr ys \<Longrightarrow> y \<in> set ys \<Longrightarrow> \<exists>x \<in> set xs. f x = Inr y"
  by (induction xs arbitrary: ys) (auto simp: bind_err_Inr_iff)

lemma for_each_InlD:
  "for_each f xs = Inl e \<Longrightarrow> \<exists>x \<in> set xs. f x = Inl e"
  by (induction xs) (auto simp: bind_err_Inl_iff)

lemma at_index_Inr: "i < length xs \<Longrightarrow> at_index xs i = Inr (xs ! i)"
  by (simp add: at_index_def)

lemma at_index_Inl: "\<not> i < length xs \<Longrightarrow> at_index xs i = Inl IndexError"
  by (simp add: at_index_def)

lemma guarded_truediv:
  "(if d > 0 then truediv n d else Inr 0) = Inr (ratio_or_zero n d)"
  by (simp add: truediv_def ratio_or_zero_def)

lemma bottleneck_entry_no_division_error:
  "bottleneck_entry labels funnel_df i \<noteq> Inl ZeroDivisionError"
  by (simp add: bottleneck_entry_def at_index_def Let_def guarded_truediv)

lemma bottleneck_entry_Inr:
  assumes "bottleneck_entry labels funnel_df i = Inr r"
  shows "i + 1 < length funnel_df \<and> i + 1 < length labels \<and>
    Transition r = labels ! i @ arrow @ labels ! (i + 1) \<and>
    Sessions_Lost r =
      funnel_row.Sessions (funnel_df ! i) - funnel_row.Sessions (funnel_df ! (i + 1)) \<and>
    Drop_Rate_Numeric r =
      ratio_or_zero
        (funnel_row.Sessions (funnel_df ! i) - funnel_row.Sessions (funnel_df ! (i + 1)))
        (funnel_row.Sessions (funnel_df ! i)) \<and>
    Drop_Rate r = Percent1 (Drop_Rate_Numeric r) \<and>
    Severity r = (if Drop_Rate_Numeric r > 3 / 10 then ''High''
                  else if Drop_Rate_Numeric r > 15 / 100 then ''Medium'' else ''Low'')"
proof -
  have f1: "i + 1 < length funnel_df"
  proof (rule ccontr)
    assume "\<not> i + 1 < length funnel_df"
    then have "bottleneck_entry labels funnel_df i = Inl IndexError"
      by (cases "i < length funnel_df")
         (simp_all add: bottleneck_entry_def at_index_Inr at_index_Inl)
    with assms show False by simp
  qed
  then have f0: "i < length funnel_df" by simp
  have l1: "i + 1 < length labels"
  proof (rule ccontr)
    assume "\<not> i + 1 < length labels"
    then have "bottleneck_entry labels funnel_df i = Inl IndexError"
      using f0 f1
      by (cases "i < length labels")
         (simp_all add: bottleneck_entry_def at_index_Inr at_index_Inl Let_def guarded_truediv)
    with assms show False by simp
  qed
  then have l0: "i < length labels" by simp
  define dr where "dr = ratio_or_zero
        (funnel_row.Sessions (funnel_df ! i) - funnel_row.Sessions (funnel_df ! (i + 1)))
        (funnel_row.Sessions (funnel_df ! i))"
  have td: "(if funnel_row.Sessions (funnel_df ! i) > 0
             then truediv (funnel_row.Sessions (funnel_df ! i)
                            - funnel_row.Sessions (funnel_df ! (i + 1)))
                    (funnel_row.Sessions (funnel_df ! i))
             else Inr 0) = Inr dr"
    unfolding dr_def by (rule guarded_truediv)
  have "bottleneck_entry labels funnel_df i =
      Inr \<lparr>Transition = labels ! i @ arrow @ labels ! (i + 1),
           Sessions_Lost =
             funnel_row.Sessions (funnel_df ! i) - funnel_row.Sessions (funnel_df ! (i + 1)),
           Drop_Rate = Percent1 dr,
           Drop_Rate_Numeric = dr,
           Severity = (if dr > 3 / 10 then ''High''
                       else if dr > 15 / 100 then ''Medium'' else ''Low'')\<rparr>"
    unfolding bottleneck_entry_def Let_def
      at_index_Inr [OF f0] at_index_Inr [OF f1] at_index_Inr [OF l0] at_index_Inr [OF l1]
      bind_err.simps td
    by (rule refl)
  with assms have r: "r = \<lparr>Transition = labels ! i @ arrow @ labels ! (i + 1),
           Sessions_Lost =
             funnel_row.Sessions (funnel_df ! i) - funnel_row.Sessions (funnel_df ! (i + 1)),
           Drop_Rate = Percent1 dr,
           Drop_Rate_Numeric = dr,
           Severity = (if dr > 3 / 10 then ''High''
                       else if dr > 15 / 100 then ''Medium'' else ''Low'')\<rparr>"
    by simp
  have sel: "Transition r = labels ! i @ arrow @ labels ! (i + 1)"
    "Sessions_Lost r =
       funnel_row.Sessions (funnel_df ! i) - funnel_row.Sessions (funnel_df ! (i + 1))"
    "Drop_Rate_Numeric r = dr" "Drop_Rate r = Percent1 dr"
    "Severity r = (if dr > 3 / 10 then ''High''
                   else if dr > 15 / 100 then ''Medium'' else ''Low'')"
    by (simp_all add: r)
  show ?thesis
  proof (intro conjI)
    show "i + 1 < length funnel_df" by (rule f1)
    show "i + 1 < length labels" by (rule l1)
    show "Transition r = labels ! i @ arrow @ labels ! (i + 1)" by (rule sel(1))
    show "Sessions_Lost r =
       funnel_row.Sessions (funnel_df ! i) - funnel_row.Sessions (funnel_df ! (i + 1))"
      by (rule sel(2))
    show "Drop_Rate_Numeric r = ratio_or_zero
        (funnel_row.Sessions (funnel_df ! i) - funnel_row.Sessions (funnel_df ! (i + 1)))
        (funnel_row.Sessions (funnel_df ! i))"
      by (simp only: sel(3) dr_def)
    show "Drop_Rate r = Percent1 (Drop_Rate_Numeric r)" by (simp only: sel(3,4))
    show "Severity r = (if Drop_Rate_Numeric r > 3 / 10 then ''High''
                  else if Drop_Rate_Numeric r > 15 / 100 then ''Medium'' else ''Low'')"
      by (simp only: sel(3,5))
  qed
qed

lemma bottleneck_entry_total:
  "i + 1 < length funnel_df \<Longrightarrow> i + 1 < length labels \<Longrightarrow>
   \<exists>r. bottleneck_entry labels funnel_df i = Inr r"
  by (simp add: bottleneck_entry_def at_index_Inr Let_def guarded_truediv)

lemma for_each_total:
  "(\<And>x. x \<in> set xs \<Longrightarrow> \<exists>y. f x = Inr y) \<Longrightarrow>
   \<exists>ys. for_each f xs = Inr ys \<and> length ys = length xs \<and>
     (\<forall>k < length xs. f (xs ! k) = Inr (ys ! k))"
proof (induction xs)
  case Nil
  then show ?case by simp
next
  case (Cons x xs)
  from Cons.prems obtain y where y: "f x = Inr y" by auto
  from Cons obtain ys where ys: "for_each f xs = Inr ys" "length ys = length xs"
      "\<forall>k < length xs. f (xs ! k) = Inr (ys ! k)"
    by auto
  have "\<forall>k < length (x # xs). f ((x # xs) ! k) = Inr ((y # ys) ! k)"
    using y ys(3) by (auto simp: nth_Cons split: nat.splits)
  with y ys show ?case by simp
qed

lemma bottleneck_data_total:
  assumes "length labels \<le> length funnel_df"
  shows "\<exists>rows. bottleneck_data labels funnel_df = Inr rows \<and>
     length rows = length labels - 1 \<and>
     (\<forall>k < length labels - 1. bottleneck_entry labels funnel_df k = Inr (rows ! k))"
proof -
  have "\<exists>ys. for_each (bottleneck_entry labels funnel_df) [0 ..< length labels - 1] = Inr ys \<and>
      length ys = length [0 ..< length labels - 1] \<and>
      (\<forall>k < length [0 ..< length labels - 1].
         bottleneck_entry labels funnel_df ([0 ..< length labels - 1] ! k) = Inr (ys ! k))"
    using assms by (intro for_each_total bottleneck_entry_total) auto
  then show ?thesis by (auto simp: bottleneck_data_def)
qed

lemma descending_order_exists:
  "sort_values_descending rows (rev (sort_key Drop_Rate_Numeric rows))"
proof -
  have "sorted (map Drop_Rate_Numeric (sort_key Drop_Rate_Numeric rows))"
    by (rule sorted_sort_key)
  then have "sorted_wrt (\<lambda>a b. Drop_Rate_Numeric a \<le> Drop_Rate_Numeric b)
      (sort_key Drop_Rate_Numeric rows)"
    by (simp only: sorted_map)
  then show ?thesis
    by (simp add: sort_values_descending_def sorted_wrt_rev)
qed


lemma bottleneck_outcome:
  assumes "generate_bottleneck_analysis_on labels funnel_df (Inr out)" and "out \<noteq> []"
  shows "\<exists>rows. bottleneck_data labels funnel_df = Inr rows \<and> sort_values_descending rows out"
proof -
  from assms have ne: "funnel_df \<noteq> []"
    by (auto simp: generate_bottleneck_analysis_on_def)
  show ?thesis
  proof (cases "bottleneck_data labels funnel_df")
    case (Inl e)
    with assms(1) ne show ?thesis by (simp add: generate_bottleneck_analysis_on_def)
  next
    case (Inr rows)
    with assms(1) ne show ?thesis
      by (simp add: generate_bottleneck_analysis_on_def split: if_splits)
  qed
qed

lemma for_each_first_error:
  "k < length xs \<Longrightarrow> f (xs ! k) = Inl e \<Longrightarrow> (\<forall>j < k. \<exists>y. f (xs ! j) = Inr y) \<Longrightarrow>
   for_each f xs = Inl e"
proof (induction xs arbitrary: k)
  case Nil
  then show ?case by simp
next
  case (Cons x xs)
  show ?case
  proof (cases k)
    case 0
    with Cons.prems show ?thesis by simp
  next
    case (Suc m)
    with Cons.prems obtain y where y: "f x = Inr y" by fastforce
    have "for_each f xs = Inl e"
    proof (rule Cons.IH [of m])
      show "m < length xs" using Cons.prems(1) Suc by simp
      show "f (xs ! m) = Inl e" using Cons.prems(2) Suc by simp
      show "\<forall>j < m. \<exists>y. f (xs ! j) = Inr y"
      proof (intro allI impI)
        fix j assume "j < m"
        then have "Suc j < k" using Suc by simp
        with Cons.prems(3) have "\<exists>y. f ((x # xs) ! Suc j) = Inr y" by blast
        then show "\<exists>y. f (xs ! j) = Inr y" by simp
      qed
    qed
    with y show ?thesis by simp
  qed
qed

lemma bottleneck_data_short_frame:
  assumes "funnel_df \<noteq> []" and "length funnel_df < length labels"
  shows "bottleneck_data labels funnel_df = Inl IndexError"
proof -
  define k where "k = length funnel_df - 1"
  have pos: "1 \<le> length funnel_df" using assms(1) by (cases funnel_df) simp_all
  have k: "k < length funnel_df" "k + 1 = length funnel_df" "k < length labels - 1"
    using pos assms(2) unfolding k_def by linarith+
  have stop: "bottleneck_entry labels funnel_df k = Inl IndexError"
    using k by (simp add: bottleneck_entry_def at_index_Inr at_index_Inl)
  have before: "\<exists>r. bottleneck_entry labels funnel_df j = Inr r" if "j < k" for j
    using that k assms by (intro bottleneck_entry_total) auto
  show ?thesis
    unfolding bottleneck_data_def
    by (rule for_each_first_error [of k]) (use k stop before in auto)
qed

subsection \<open>C5: number and order of the bottleneck rows\<close>

text \<open>
  C5, as stated, fails twice. In the funnel frame of the first sample table five
  transitions have drop rate 0, and the result is not bound to be the frame that lists
  them in stage order: \<^verbatim>\<open>sort_values\<close> is called without asking for a stable
  sort. And for a funnel frame of a single stage the analysis does
  not return a frame without rows: the loop reads the row after the first one, which
  raises \<^verbatim>\<open>IndexError\<close>.
\<close>

theorem tie_order_and_short_frame:
  "\<not> (\<forall>out. generate_bottleneck_analysis funnel_revisit (Inr out) \<longrightarrow>
          out = bottlenecks_revisit) \<and>
   map Drop_Rate_Numeric bottlenecks_revisit = [1, 0, 0, 0, 0, 0, - 1] \<and>
   length funnel_single = 1 \<and>
   generate_bottleneck_analysis funnel_single (Inl IndexError) \<and>
   \<not> generate_bottleneck_analysis funnel_single (Inr [])"
proof -
  have a: "generate_bottleneck_analysis funnel_revisit (Inr bottlenecks_revisit_exchanged)"
    by code_simp
  have b: "bottlenecks_revisit_exchanged \<noteq> bottlenecks_revisit" by code_simp
  have c: "map Drop_Rate_Numeric bottlenecks_revisit = [1, 0, 0, 0, 0, 0, - 1] \<and>
   length funnel_single = 1 \<and>
   generate_bottleneck_analysis funnel_single (Inl IndexError) \<and>
   \<not> generate_bottleneck_analysis funnel_single (Inr [])"
    by code_simp
  from a b have "\<not> (\<forall>out. generate_bottleneck_analysis funnel_revisit (Inr out) \<longrightarrow>
          out = bottlenecks_revisit)"
    by blast
  with c show ?thesis by blast
qed

text \<open>
  C5, amended: for a list of \<open>n \<ge> 2\<close> funnel labels and a funnel frame with at least
  \<open>n\<close> rows, the bottleneck analysis returns a frame, never an error, and every frame
  it can return has exactly \<open>n - 1\<close> rows, which are the rows computed for the
  adjacent stage pairs \<open>0, \<dots>, n - 2\<close> in some order, arranged by descending
  drop rate; the order among rows of equal drop rate is not fixed. For a non-empty
  funnel frame with fewer rows than labels, such as the frame of a single stage, the
  analysis raises \<^verbatim>\<open>IndexError\<close>.
\<close>

theorem bottleneck_rows_sorted:
  "(2 \<le> length labels \<and> length labels \<le> length funnel_df \<longrightarrow>
      (\<exists>out. generate_bottleneck_analysis_on labels funnel_df (Inr out)) \<and>
      (\<forall>res. generate_bottleneck_analysis_on labels funnel_df res \<longrightarrow>
         (\<exists>out rows. res = Inr out \<and> bottleneck_data labels funnel_df = Inr rows \<and>
            length out = length labels - 1 \<and>
            (\<forall>k < length labels - 1. bottleneck_entry labels funnel_df k = Inr (rows ! k)) \<and>
            mset out = mset rows \<and>
            sorted_wrt (\<lambda>a b. Drop_Rate_Numeric a \<ge> Drop_Rate_Numeric b) out))) \<and>
   (funnel_df \<noteq> [] \<and> length funnel_df < length labels \<longrightarrow>
      (\<forall>res. generate_bottleneck_analysis_on labels funnel_df res \<longleftrightarrow> res = Inl IndexError))"
proof (intro conjI impI)
  assume "2 \<le> length labels \<and> length labels \<le> length funnel_df"
  then have a1: "2 \<le> length labels" and a2: "length labels \<le> length funnel_df" by simp_all
  from bottleneck_data_total [OF a2] obtain rows where
    rows: "bottleneck_data labels funnel_df = Inr rows"
    and len: "length rows = length labels - 1"
    and nth: "\<forall>k < length labels - 1. bottleneck_entry labels funnel_df k = Inr (rows ! k)"
    by blast
  have ne: "funnel_df \<noteq> []" "rows \<noteq> []" using a1 a2 len by auto
  have run: "generate_bottleneck_analysis_on labels funnel_df res \<longleftrightarrow>
      (case res of Inl e \<Rightarrow> False | Inr out \<Rightarrow> sort_values_descending rows out)" for res
    using ne rows by (simp add: generate_bottleneck_analysis_on_def)
  show "\<exists>out. generate_bottleneck_analysis_on labels funnel_df (Inr out)"
    using descending_order_exists [of rows] by (auto simp: run)
  show "\<forall>res. generate_bottleneck_analysis_on labels funnel_df res \<longrightarrow>
         (\<exists>out rows. res = Inr out \<and> bottleneck_data labels funnel_df = Inr rows \<and>
            length out = length labels - 1 \<and>
            (\<forall>k < length labels - 1. bottleneck_entry labels funnel_df k = Inr (rows ! k)) \<and>
            mset out = mset rows \<and>
            sorted_wrt (\<lambda>a b. Drop_Rate_Numeric a \<ge> Drop_Rate_Numeric b) out)"
  proof (intro allI impI)
    fix res
    assume that: "generate_bottleneck_analysis_on labels funnel_df res"
    show "\<exists>out rows. res = Inr out \<and> bottleneck_data labels funnel_df = Inr rows \<and>
            length out = length labels - 1 \<and>
            (\<forall>k < length labels - 1. bottleneck_entry labels funnel_df k = Inr (rows ! k)) \<and>
            mset out = mset rows \<and>
            sorted_wrt (\<lambda>a b. Drop_Rate_Numeric a \<ge> Drop_Rate_Numeric b) out"
    proof (cases res)
      case (Inl e)
      with that show ?thesis by (simp add: run)
    next
      case (Inr out)
      with that have s: "sort_values_descending rows out" by (simp add: run)
      then have m: "mset out = mset rows"
        and o: "sorted_wrt (\<lambda>a b. Drop_Rate_Numeric a \<ge> Drop_Rate_Numeric b) out"
        by (simp_all add: sort_values_descending_def)
      from m have "length out = length rows" by (rule mset_eq_length)
      with Inr rows len nth m o show ?thesis by simp
    qed
  qed
next
  assume "funnel_df \<noteq> [] \<and> length funnel_df < length labels"
  then have b1: "funnel_df \<noteq> []" and b2: "length funnel_df < length labels" by simp_all
  show "\<forall>res. generate_bottleneck_analysis_on labels funnel_df res \<longleftrightarrow> res = Inl IndexError"
    using b1 bottleneck_data_short_frame [OF b1 b2]
    by (simp add: generate_bottleneck_analysis_on_def)
qed

theorem bottleneck_rows_sorted_witness:
  "2 \<le> length FUNNEL_LABELS \<and> length FUNNEL_LABELS \<le> length funnel_thresholds \<and>
   generate_bottleneck_analysis_on FUNNEL_LABELS funnel_thresholds
     (Inr bottlenecks_thresholds) \<and>
   length bottlenecks_thresholds = length FUNNEL_LABELS - 1 \<and>
   map Drop_Rate_Numeric bottlenecks_thresholds = [1, 7 / 17, 3 / 10, 3 / 20, 0, 0, 0] \<and>
   funnel_single \<noteq> [] \<and> length funnel_single < length FUNNEL_LABELS \<and>
   generate_bottleneck_analysis_on FUNNEL_LABELS funnel_single (Inl IndexError)"
proof -
  have h1: "2 \<le> length FUNNEL_LABELS" by code_simp
  have h2: "length FUNNEL_LABELS \<le> length funnel_thresholds" by code_simp
  have h3: "generate_bottleneck_analysis_on FUNNEL_LABELS funnel_thresholds
      (Inr bottlenecks_thresholds)"
    by code_simp
  have c: "map Drop_Rate_Numeric bottlenecks_thresholds
      = [1, 7 / 17, 3 / 10, 3 / 20, 0, 0, 0]"
    by code_simp
  have h4: "funnel_single \<noteq> []" by code_simp
  have h5: "length funnel_single < length FUNNEL_LABELS" by code_simp
  note t1 = bottleneck_rows_sorted [of FUNNEL_LABELS funnel_thresholds]
  note t2 = bottleneck_rows_sorted [of FUNNEL_LABELS funnel_single]
  from t1 h1 h2 h3
  have l: "length bottlenecks_thresholds = length FUNNEL_LABELS - 1" by blast
  from t2 h4 h5
  have e: "generate_bottleneck_analysis_on FUNNEL_LABELS funnel_single (Inl IndexError)"
    by blast
  from h1 h2 h3 c h4 h5 l e show ?thesis by blast
qed

subsection \<open>C6: severity thresholds\<close>

text \<open>
  C6: every row of every frame returned by the bottleneck analysis belongs to an
  adjacent stage pair, its drop rate is the guarded quotient of the sessions lost by the
  earlier stage's count, and its severity is High exactly when the drop rate exceeds
  3/10, Medium exactly when it exceeds 15/100 without exceeding 3/10, and Low exactly
  when it is at most 15/100. So a drop rate of exactly 0.30 is Medium and one of
  exactly 0.15 is Low.
\<close>

theorem severity_thresholds:
  assumes "generate_bottleneck_analysis_on labels funnel_df (Inr out)" and "r \<in> set out"
  shows "(Severity r = ''High'' \<longleftrightarrow> Drop_Rate_Numeric r > 3 / 10) \<and>
    (Severity r = ''Medium'' \<longleftrightarrow> Drop_Rate_Numeric r > 15 / 100 \<and> Drop_Rate_Numeric r \<le> 3 / 10) \<and>
    (Severity r = ''Low'' \<longleftrightarrow> Drop_Rate_Numeric r \<le> 15 / 100) \<and>
    (\<exists>i. i + 1 < length funnel_df \<and>
       Drop_Rate_Numeric r =
         (if funnel_row.Sessions (funnel_df ! i) > 0
          then of_int (funnel_row.Sessions (funnel_df ! i)
                        - funnel_row.Sessions (funnel_df ! (i + 1)))
               / of_int (funnel_row.Sessions (funnel_df ! i))
          else 0))"
proof -
  from assms(2) have "out \<noteq> []" by auto
  from bottleneck_outcome [OF assms(1) this] obtain rows where
    rows: "bottleneck_data labels funnel_df = Inr rows"
    and s: "sort_values_descending rows out"
    by blast
  from s have "set out = set rows"
    by (auto simp: sort_values_descending_def dest: mset_eq_setD)
  with assms(2) have "r \<in> set rows" by simp
  with rows obtain i where i: "bottleneck_entry labels funnel_df i = Inr r"
    unfolding bottleneck_data_def by (blast dest: for_each_InrD)
  note e = bottleneck_entry_Inr [OF i]
  define d where "d = Drop_Rate_Numeric r"
  have sev: "Severity r = (if d > 3 / 10 then ''High''
                  else if d > 15 / 100 then ''Medium'' else ''Low'')"
    using e by (simp add: d_def)
  have "(Severity r = ''High'' \<longleftrightarrow> d > 3 / 10) \<and>
    (Severity r = ''Medium'' \<longleftrightarrow> d > 15 / 100 \<and> d \<le> 3 / 10) \<and>
    (Severity r = ''Low'' \<longleftrightarrow> d \<le> 15 / 100)"
  proof (cases "d > 3 / 10")
    case True
    then have "d > 15 / 100" by simp
    with True sev show ?thesis by simp
  next
    case False
    with sev show ?thesis by (cases "d > 15 / 100") simp_all
  qed
  moreover have "\<exists>i. i + 1 < length funnel_df \<and>
       Drop_Rate_Numeric r =
         (if funnel_row.Sessions (funnel_df ! i) > 0
          then of_int (funnel_row.Sessions (funnel_df ! i)
                        - funnel_row.Sessions (funnel_df ! (i + 1)))
               / of_int (funnel_row.Sessions (funnel_df ! i))
          else 0)"
    using e by (intro exI [of _ i]) (simp add: ratio_or_zero_def)
  ultimately show ?thesis by (simp add: d_def)
qed

theorem severity_thresholds_witness:
  "generate_bottleneck_analysis_on FUNNEL_LABELS funnel_thresholds
     (Inr bottlenecks_thresholds) \<and>
   bottlenecks_thresholds ! 2 \<in> set bottlenecks_thresholds \<and>
   Drop_Rate_Numeric (bottlenecks_thresholds ! 2) = 3 / 10 \<and>
   Severity (bottlenecks_thresholds ! 2) = ''Medium'' \<and>
   bottlenecks_thresholds ! 3 \<in> set bottlenecks_thresholds \<and>
   Drop_Rate_Numeric (bottlenecks_thresholds ! 3) = 15 / 100 \<and>
   Severity (bottlenecks_thresholds ! 3) = ''Low''"
proof -
  have h1: "generate_bottleneck_analysis_on FUNNEL_LABELS funnel_thresholds
      (Inr bottlenecks_thresholds)"
    by code_simp
  have len: "length bottlenecks_thresholds = 7" by code_simp
  have m2: "bottlenecks_thresholds ! 2 \<in> set bottlenecks_thresholds"
    and m3: "bottlenecks_thresholds ! 3 \<in> set bottlenecks_thresholds"
    by (simp_all add: len)
  have d2: "Drop_Rate_Numeric (bottlenecks_thresholds ! 2) = 3 / 10" by code_simp
  have d3: "Drop_Rate_Numeric (bottlenecks_thresholds ! 3) = 15 / 100" by code_simp
  from severity_thresholds [OF h1 m2] d2
  have s2: "Severity (bottlenecks_thresholds ! 2) = ''Medium''" by simp
  from severity_thresholds [OF h1 m3] d3
  have s3: "Severity (bottlenecks_thresholds ! 3) = ''Low''" by simp
  from h1 m2 m3 d2 d3 s2 s3 show ?thesis by simp
qed

section \<open>Properties of the device and traffic source analysis\<close>

lemma nunique_zero_iff: "0 < nunique xs \<longleftrightarrow> nunique xs \<noteq> 0"
  by (simp add: nunique_def)

lemma device_entry_numbers:
  "\<exists>r. device_entry df dev = Inr r \<and> device_numbers r = segment_row device df dev \<and>
       Device r = capitalize dev \<and>
       device_row.Conversion_Rate r = Percent1 (device_row.Conversion_Rate_Numeric r)"
  by (simp add: device_entry_def Let_def guarded_truediv device_numbers_def segment_row_def
      ratio_or_zero_def nunique_zero_iff)

lemma traffic_entry_numbers:
  "\<exists>r. traffic_entry df source = Inr r \<and> traffic_numbers r = segment_row traffic_source df source \<and>
       Traffic_Source r = title (replace_char (CHR ''_'') (CHR '' '') source) \<and>
       traffic_row.Conversion_Rate r = Percent1 (traffic_row.Conversion_Rate_Numeric r)"
  by (simp add: traffic_entry_def Let_def guarded_truediv traffic_numbers_def segment_row_def
      ratio_or_zero_def nunique_zero_iff)

lemma unique_Nil: "unique [] = []"
  by (simp add: unique_def)

lemma device_analysis_rows:
  "\<exists>rows. generate_device_analysis df = Inr rows \<and>
     length rows = length (unique (map device df)) \<and>
     (\<forall>j < length rows.
        device_entry df (unique (map device df) ! j) = Inr (rows ! j) \<and>
        device_numbers (rows ! j) = segment_row device df (unique (map device df) ! j))"
proof -
  have "\<exists>ys. for_each (device_entry df) (unique (map device df)) = Inr ys \<and>
      length ys = length (unique (map device df)) \<and>
      (\<forall>k < length (unique (map device df)).
         device_entry df (unique (map device df) ! k) = Inr (ys ! k))"
    using device_entry_numbers by (intro for_each_total) blast
  then obtain ys where ys: "for_each (device_entry df) (unique (map device df)) = Inr ys"
    "length ys = length (unique (map device df))"
    "\<forall>k < length (unique (map device df)).
         device_entry df (unique (map device df) ! k) = Inr (ys ! k)"
    by blast
  have run: "generate_device_analysis df = Inr ys"
  proof (cases "df = []")
    case True
    with ys show ?thesis by (simp add: generate_device_analysis_def unique_Nil)
  next
    case False
    with ys show ?thesis by (simp add: generate_device_analysis_def)
  qed
  have "device_numbers (ys ! j) = segment_row device df (unique (map device df) ! j)"
    if "j < length ys" for j
    using device_entry_numbers [of df "unique (map device df) ! j"] ys(2,3) that by auto
  with run ys show ?thesis by auto
qed

lemma traffic_analysis_rows:
  "\<exists>rows. generate_traffic_analysis df = Inr rows \<and>
     length rows = length (unique (map traffic_source df)) \<and>
     (\<forall>j < length rows.
        traffic_entry df (unique (map traffic_source df) ! j) = Inr (rows ! j) \<and>
        traffic_numbers (rows ! j) =
          segment_row traffic_source df (unique (map traffic_source df) ! j))"
proof -
  have "\<exists>ys. for_each (traffic_entry df) (unique (map traffic_source df)) = Inr ys \<and>
      length ys = length (unique (map traffic_source df)) \<and>
      (\<forall>k < length (unique (map traffic_source df)).
         traffic_entry df (unique (map traffic_source df) ! k) = Inr (ys ! k))"
    using traffic_entry_numbers by (intro for_each_total) blast
  then obtain ys where
    ys: "for_each (traffic_entry df) (unique (map traffic_source df)) = Inr ys"
    "length ys = length (unique (map traffic_source df))"
    "\<forall>k < length (unique (map traffic_source df)).
         traffic_entry df (unique (map traffic_source df) ! k) = Inr (ys ! k)"
    by blast
  have run: "generate_traffic_analysis df = Inr ys"
  proof (cases "df = []")
    case True
    with ys show ?thesis by (simp add: generate_traffic_analysis_def unique_Nil)
  next
    case False
    with ys show ?thesis by (simp add: generate_traffic_analysis_def)
  qed
  have "traffic_numbers (ys ! j) =
      segment_row traffic_source df (unique (map traffic_source df) ! j)"
    if "j < length ys" for j
    using traffic_entry_numbers [of df "unique (map traffic_source df) ! j"] ys(2,3) that
    by auto
  with run ys show ?thesis by auto
qed

lemma segment_row_card:
  "segment_row key df v =
     (int (card (session_id ` {e \<in> set df. key e = v})),
      int (card (session_id `
        {e \<in> set df. key e = v \<and> page e = ''payment_page'' \<and> action e = ''purchase''})),
      ratio_or_zero
        (int (card (session_id `
          {e \<in> set df. key e = v \<and> page e = ''payment_page'' \<and> action e = ''purchase''})))
        (int (card (session_id ` {e \<in> set df. key e = v}))))"
proof -
  have a: "set (map session_id (filter (\<lambda>e. key e = v) df))
      = session_id ` {e \<in> set df. key e = v}"
    by simp
  have b: "set (map session_id
        (filter (\<lambda>e. page e = ''payment_page'' \<and> action e = ''purchase'')
           (filter (\<lambda>e. key e = v) df)))
      = session_id `
          {e \<in> set df. key e = v \<and> page e = ''payment_page'' \<and> action e = ''purchase''}"
    by auto
  show ?thesis
    unfolding segment_row_def Let_def nunique_card a b
    by (simp add: ratio_or_zero_def)
qed

lemma segment_row_swap:
  "segment_row device (map swap_segments df) v = segment_row traffic_source df v"
  "segment_row traffic_source (map swap_segments df) v = segment_row device df v"
  by (simp_all add: segment_row_def filter_map comp_def swap_segments_def)

lemma segment_conversion_swap:
  "segment_conversion device (map swap_segments df) = segment_conversion traffic_source df"
  "segment_conversion traffic_source (map swap_segments df) = segment_conversion device df"
  by (simp_all add: segment_conversion_def segment_row_swap comp_def swap_segments_def)

subsection \<open>C9: what counts as a converted session\<close>

text \<open>
  C9, as stated, fails: a session with a homepage view on a mobile device and a
  purchase on a desktop device (and likewise with two traffic sources) is attributed to
  both partitions and contains a purchase, yet it is not counted as converted for the
  partition of the homepage view.
\<close>

theorem purchase_elsewhere_is_not_counted:
  "map Device device_cross = [''Mobile'', ''Desktop''] \<and>
   map Total_Sessions device_cross = [1, 1] \<and>
   map device_row.Conversions device_cross = [0, 1] \<and>
   converted_anywhere device clicks_cross_device ''mobile'' = 1 \<and>
   map Traffic_Source traffic_cross = [''Organic Search'', ''Email''] \<and>
   map traffic_row.Sessions traffic_cross = [1, 1] \<and>
   map traffic_row.Conversions traffic_cross = [0, 1] \<and>
   converted_anywhere traffic_source clicks_cross_device ''organic_search'' = 1"
  by code_simp

text \<open>
  C9, amended: in the segment conversion analyzers, for every event table and every
  partition value, in order of first appearance, the total is the number of distinct
  session ids among the events carrying that value, and the conversions are the number
  of distinct session ids among the purchase events (page payment_page, action
  purchase) that themselves carry that partition value; a purchase event of the same
  session with another partition value does not count.
\<close>

theorem conversions_counted_within_partition:
  "(\<exists>rows. generate_device_analysis df = Inr rows \<and>
      length rows = length (unique (map device df)) \<and>
      (\<forall>j < length rows.
         Total_Sessions (rows ! j) =
           int (card (session_id ` {e \<in> set df. device e = unique (map device df) ! j})) \<and>
         device_row.Conversions (rows ! j) =
           int (card (session_id `
             {e \<in> set df. device e = unique (map device df) ! j \<and>
                page e = ''payment_page'' \<and> action e = ''purchase''})))) \<and>
   (\<exists>rows. generate_traffic_analysis df = Inr rows \<and>
      length rows = length (unique (map traffic_source df)) \<and>
      (\<forall>j < length rows.
         traffic_row.Sessions (rows ! j) =
           int (card (session_id `
             {e \<in> set df. traffic_source e = unique (map traffic_source df) ! j})) \<and>
         traffic_row.Conversions (rows ! j) =
           int (card (session_id `
             {e \<in> set df. traffic_source e = unique (map traffic_source df) ! j \<and>
                page e = ''payment_page'' \<and> action e = ''purchase''}))))"
proof -
  from device_analysis_rows [of df] obtain ds where
    ds: "generate_device_analysis df = Inr ds"
      "length ds = length (unique (map device df))"
      "\<forall>j < length ds.
         device_numbers (ds ! j) = segment_row device df (unique (map device df) ! j)"
    by blast
  from traffic_analysis_rows [of df] obtain ts where
    ts: "generate_traffic_analysis df = Inr ts"
      "length ts = length (unique (map traffic_source df))"
      "\<forall>j < length ts.
         traffic_numbers (ts ! j) =
           segment_row traffic_source df (unique (map traffic_source df) ! j)"
    by blast
  have d: "\<forall>j < length ds.
         Total_Sessions (ds ! j) =
           int (card (session_id ` {e \<in> set df. device e = unique (map device df) ! j})) \<and>
         device_row.Conversions (ds ! j) =
           int (card (session_id `
             {e \<in> set df. device e = unique (map device df) ! j \<and>
                page e = ''payment_page'' \<and> action e = ''purchase''}))"
    using ds(3) by (simp add: device_numbers_def segment_row_card)
  have t: "\<forall>j < length ts.
         traffic_row.Sessions (ts ! j) =
           int (card (session_id `
             {e \<in> set df. traffic_source e = unique (map traffic_source df) ! j})) \<and>
         traffic_row.Conversions (ts ! j) =
           int (card (session_id `
             {e \<in> set df. traffic_source e = unique (map traffic_source df) ! j \<and>
                page e = ''payment_page'' \<and> action e = ''purchase''}))"
    using ts(3) by (simp add: traffic_numbers_def segment_row_card)
  from ds(1,2) d ts(1,2) t show ?thesis by blast
qed

theorem conversions_counted_within_partition_witness:
  "generate_device_analysis clicks_cross_device = Inr device_cross \<and>
   0 < length device_cross \<and>
   unique (map device clicks_cross_device) ! 0 = ''mobile'' \<and>
   device_row.Conversions (device_cross ! 0) = 0 \<and>
   int (card (session_id `
      {e \<in> set clicks_cross_device. device e = ''mobile'' \<and>
         page e = ''payment_page'' \<and> action e = ''purchase''})) = 0"
proof -
  have h1: "generate_device_analysis clicks_cross_device = Inr device_cross" by code_simp
  have h2: "0 < length device_cross" by code_simp
  have h3: "unique (map device clicks_cross_device) ! 0 = ''mobile''" by code_simp
  have c: "device_row.Conversions (device_cross ! 0) = 0" by code_simp
  from conversions_counted_within_partition [of clicks_cross_device] h1 h2
  have "device_row.Conversions (device_cross ! 0) =
      int (card (session_id `
        {e \<in> set clicks_cross_device.
           device e = unique (map device clicks_cross_device) ! 0 \<and>
           page e = ''payment_page'' \<and> action e = ''purchase''}))"
    by auto
  with h1 h2 h3 c show ?thesis by simp
qed

subsection \<open>C10: the two analyzers are one aggregation\<close>

text \<open>
  C10: for every event table, the device analysis and the traffic source analysis
  return a frame whose numbers (total sessions, conversions, conversion rate) are those
  of the one aggregation \<open>segment_conversion\<close>, taken at the device column and at
  the traffic source column; consequently, exchanging the device and traffic source
  fields of every event exchanges the numbers the two analyzers return.
\<close>

theorem segment_analyzers_are_one_aggregation:
  "(\<exists>rows. generate_device_analysis df = Inr rows \<and>
      map device_numbers rows = segment_conversion device df) \<and>
   (\<exists>rows. generate_traffic_analysis df = Inr rows \<and>
      map traffic_numbers rows = segment_conversion traffic_source df) \<and>
   map device_numbers (rows_of (generate_device_analysis (map swap_segments df))) =
     map traffic_numbers (rows_of (generate_traffic_analysis df)) \<and>
   map traffic_numbers (rows_of (generate_traffic_analysis (map swap_segments df))) =
     map device_numbers (rows_of (generate_device_analysis df))"
proof -
  have dev: "\<exists>rows. generate_device_analysis d = Inr rows \<and>
      map device_numbers rows = segment_conversion device d" for d
  proof -
    from device_analysis_rows [of d] obtain ds where
      ds: "generate_device_analysis d = Inr ds"
        "length ds = length (unique (map device d))"
        "\<forall>j < length ds.
           device_numbers (ds ! j) = segment_row device d (unique (map device d) ! j)"
      by blast
    have "map device_numbers ds = map (segment_row device d) (unique (map device d))"
      using ds(2,3) by (intro nth_equalityI) simp_all
    with ds(1) show ?thesis by (simp add: segment_conversion_def)
  qed
  have tra: "\<exists>rows. generate_traffic_analysis d = Inr rows \<and>
      map traffic_numbers rows = segment_conversion traffic_source d" for d
  proof -
    from traffic_analysis_rows [of d] obtain ts where
      ts: "generate_traffic_analysis d = Inr ts"
        "length ts = length (unique (map traffic_source d))"
        "\<forall>j < length ts.
           traffic_numbers (ts ! j) =
             segment_row traffic_source d (unique (map traffic_source d) ! j)"
      by blast
    have "map traffic_numbers ts =
        map (segment_row traffic_source d) (unique (map traffic_source d))"
      using ts(2,3) by (intro nth_equalityI) simp_all
    with ts(1) show ?thesis by (simp add: segment_conversion_def)
  qed
  have dn: "map device_numbers (rows_of (generate_device_analysis d)) =
      segment_conversion device d" for d
    using dev [of d] by auto
  have tn: "map traffic_numbers (rows_of (generate_traffic_analysis d)) =
      segment_conversion traffic_source d" for d
    using tra [of d] by auto
  have s1: "map device_numbers (rows_of (generate_device_analysis (map swap_segments df))) =
     map traffic_numbers (rows_of (generate_traffic_analysis df))"
    by (simp only: dn tn segment_conversion_swap)
  have s2: "map traffic_numbers (rows_of (generate_traffic_analysis (map swap_segments df))) =
     map device_numbers (rows_of (generate_device_analysis df))"
    by (simp only: dn tn segment_conversion_swap)
  from dev [of df] tra [of df] s1 s2 show ?thesis by blast
qed

theorem segment_analyzers_are_one_aggregation_witness:
  "map device_numbers (rows_of (generate_device_analysis (map swap_segments clicks_cross_device)))
     = map traffic_numbers traffic_cross \<and>
   map traffic_numbers traffic_cross = [(1, 0, 0), (1, 1, 1)] \<and>
   segment_conversion traffic_source clicks_cross_device = [(1, 0, 0), (1, 1, 1)]"
proof -
  have c: "map traffic_numbers traffic_cross = [(1, 0, 0), (1, 1, 1)]" by code_simp
  have r: "generate_traffic_analysis clicks_cross_device = Inr traffic_cross" by code_simp
  note t = segment_analyzers_are_one_aggregation [of clicks_cross_device]
  have s: "map device_numbers
      (rows_of (generate_device_analysis (map swap_segments clicks_cross_device)))
     = map traffic_numbers traffic_cross"
    using t unfolding traffic_cross_def by (elim conjE)
  from t obtain rows where "generate_traffic_analysis clicks_cross_device = Inr rows"
    and "map traffic_numbers rows = segment_conversion traffic_source clicks_cross_device"
    by (elim conjE exE)
  with r have "map traffic_numbers traffic_cross =
      segment_conversion traffic_source clicks_cross_device"
    by simp
  with s c show ?thesis by simp
qed

section \<open>Properties shared by all rate computations\<close>

lemma bottleneck_data_no_division_error:
  "bottleneck_data labels funnel_df \<noteq> Inl ZeroDivisionError"
  unfolding bottleneck_data_def
  using bottleneck_entry_no_division_error by (blast dest: for_each_InlD)

lemma bottleneck_analysis_no_division_error:
  "\<not> generate_bottleneck_analysis_on labels funnel_df (Inl ZeroDivisionError)"
proof (cases "bottleneck_data labels funnel_df")
  case (Inl e)
  with bottleneck_data_no_division_error [of labels funnel_df] show ?thesis
    by (auto simp: generate_bottleneck_analysis_on_def)
next
  case (Inr rows)
  then show ?thesis by (simp add: generate_bottleneck_analysis_on_def)
qed

lemma funnel_analysis_total: "\<exists>rows. generate_funnel_analysis df time_filter = Inr rows"
  by (simp add: generate_funnel_analysis_def funnel_cases FUNNEL_STAGES_def FUNNEL_LABELS_def)

lemma funnel_no_division_error:
  "generate_funnel_analysis_on stages labels df time_filter \<noteq> Inl ZeroDivisionError"
  by (simp add: funnel_cases)

lemma device_entry_zero:
  "device_entry df dev = Inr d \<Longrightarrow> Total_Sessions d = 0 \<Longrightarrow>
   device_row.Conversion_Rate_Numeric d = 0 \<and> device_row.Conversion_Rate d = Percent1 0"
  using device_entry_numbers [of df dev]
  by (auto simp: device_numbers_def segment_row_def Let_def)

lemma traffic_entry_zero:
  "traffic_entry df source = Inr t \<Longrightarrow> traffic_row.Sessions t = 0 \<Longrightarrow>
   traffic_row.Conversion_Rate_Numeric t = 0 \<and> traffic_row.Conversion_Rate t = Percent1 0"
  using traffic_entry_numbers [of df source]
  by (auto simp: traffic_numbers_def segment_row_def Let_def)

subsection \<open>C8: zero denominators\<close>

text \<open>
  C8: no rate computation divides by zero. The funnel analysis returns a frame for every
  event table and time filter, and for any stage and label lists it never ends in a
  division error; the bottleneck analysis never ends in a division error; the device
  and traffic source analyses return a frame for every event table, and their loop
  bodies return a row for every partition value. Wherever the denominator is 0, the
  rate is exactly 0: the conversion rates from start when the kept events have no
  session, the drop rate of a transition whose earlier stage has count 0 (in the funnel
  frame and in the bottleneck row), and the conversion rate of a partition with no
  session.
\<close>

theorem zero_denominators_give_zero:
  "(\<exists>rows. generate_funnel_analysis df time_filter = Inr rows) \<and>
   generate_funnel_analysis_on stages labels df time_filter \<noteq> Inl ZeroDivisionError \<and>
   (generate_funnel_analysis_on stages labels df time_filter = Inr rows \<and> i < length rows \<and>
    nunique (map session_id (apply_time_filter df time_filter)) = 0 \<longrightarrow>
      Conversion_Rate_from_Start (rows ! i) = Percent1 0) \<and>
   (generate_funnel_analysis_on stages labels df time_filter = Inr rows \<and>
    i + 1 < length rows \<and> funnel_row.Sessions (rows ! i) = 0 \<longrightarrow>
      Drop_Rate_to_Next (rows ! (i + 1)) = Percent1 0) \<and>
   \<not> generate_bottleneck_analysis_on labels funnel_df (Inl ZeroDivisionError) \<and>
   (bottleneck_entry labels funnel_df k = Inr b \<and> funnel_row.Sessions (funnel_df ! k) = 0 \<longrightarrow>
      Drop_Rate_Numeric b = 0 \<and> Drop_Rate b = Percent1 0) \<and>
   (\<exists>rows. generate_device_analysis df = Inr rows) \<and>
   (\<exists>rows. generate_traffic_analysis df = Inr rows) \<and>
   (\<exists>r. device_entry df dev = Inr r) \<and>
   (device_entry df dev = Inr d \<and> Total_Sessions d = 0 \<longrightarrow>
      device_row.Conversion_Rate_Numeric d = 0 \<and> device_row.Conversion_Rate d = Percent1 0) \<and>
   (\<exists>r. traffic_entry df source = Inr r) \<and>
   (traffic_entry df source = Inr t \<and> traffic_row.Sessions t = 0 \<longrightarrow>
      traffic_row.Conversion_Rate_Numeric t = 0 \<and> traffic_row.Conversion_Rate t = Percent1 0)"
proof -
  have p1: "\<exists>rows. generate_funnel_analysis df time_filter = Inr rows"
    by (rule funnel_analysis_total)
  have p2: "generate_funnel_analysis_on stages labels df time_filter \<noteq> Inl ZeroDivisionError"
    by (rule funnel_no_division_error)
  have p3: "generate_funnel_analysis_on stages labels df time_filter = Inr rows \<and>
      i < length rows \<and>
      nunique (map session_id (apply_time_filter df time_filter)) = 0 \<longrightarrow>
      Conversion_Rate_from_Start (rows ! i) = Percent1 0"
  proof (intro impI, elim conjE)
    assume a: "generate_funnel_analysis_on stages labels df time_filter = Inr rows"
      and b: "i < length rows"
      and c: "nunique (map session_id (apply_time_filter df time_filter)) = 0"
    from funnel_rows_nonempty(5) [OF a b] c
    show "Conversion_Rate_from_Start (rows ! i) = Percent1 0"
      by (simp add: funnel_row_at_def ratio_or_zero_def)
  qed
  have p4: "generate_funnel_analysis_on stages labels df time_filter = Inr rows \<and>
      i + 1 < length rows \<and> funnel_row.Sessions (rows ! i) = 0 \<longrightarrow>
      Drop_Rate_to_Next (rows ! (i + 1)) = Percent1 0"
  proof (intro impI, elim conjE)
    assume a: "generate_funnel_analysis_on stages labels df time_filter = Inr rows"
      and b: "i + 1 < length rows"
      and c: "funnel_row.Sessions (rows ! i) = 0"
    from b have b0: "i < length rows" by simp
    note ri = funnel_rows_nonempty(5) [OF a b0]
    note rn = funnel_rows_nonempty(5) [OF a b]
    from c have "stage_sessions (apply_time_filter df time_filter) (stages ! i) = 0"
      unfolding ri by (simp add: funnel_row_at_def)
    then show "Drop_Rate_to_Next (rows ! (i + 1)) = Percent1 0"
      unfolding rn by (simp add: funnel_row_at_def ratio_or_zero_def)
  qed
  have p5: "\<not> generate_bottleneck_analysis_on labels funnel_df (Inl ZeroDivisionError)"
    by (rule bottleneck_analysis_no_division_error)
  have p6: "bottleneck_entry labels funnel_df k = Inr b \<and>
      funnel_row.Sessions (funnel_df ! k) = 0 \<longrightarrow>
      Drop_Rate_Numeric b = 0 \<and> Drop_Rate b = Percent1 0"
  proof (intro impI, elim conjE)
    assume a: "bottleneck_entry labels funnel_df k = Inr b"
      and c: "funnel_row.Sessions (funnel_df ! k) = 0"
    from bottleneck_entry_Inr [OF a] c
    show "Drop_Rate_Numeric b = 0 \<and> Drop_Rate b = Percent1 0"
      by (simp add: ratio_or_zero_def)
  qed
  have p7: "\<exists>rows. generate_device_analysis df = Inr rows"
    using device_analysis_rows [of df] by blast
  have p8: "\<exists>rows. generate_traffic_analysis df = Inr rows"
    using traffic_analysis_rows [of df] by blast
  have p9: "\<exists>r. device_entry df dev = Inr r"
    using device_entry_numbers [of df dev] by blast
  have p10: "device_entry df dev = Inr d \<and> Total_Sessions d = 0 \<longrightarrow>
      device_row.Conversion_Rate_Numeric d = 0 \<and> device_row.Conversion_Rate d = Percent1 0"
    using device_entry_zero [of df dev d] by blast
  have p11: "\<exists>r. traffic_entry df source = Inr r"
    using traffic_entry_numbers [of df source] by blast
  have p12: "traffic_entry df source = Inr t \<and> traffic_row.Sessions t = 0 \<longrightarrow>
      traffic_row.Conversion_Rate_Numeric t = 0 \<and> traffic_row.Conversion_Rate t = Percent1 0"
    using traffic_entry_zero [of df source t] by blast
  show ?thesis
    by (intro conjI) (fact p1 p2 p3 p4 p5 p6 p7 p8 p9 p10 p11 p12)+
qed

theorem zero_denominators_give_zero_witness:
  "generate_funnel_analysis_on FUNNEL_STAGES FUNNEL_LABELS clicks_revisit (Some (5, 6))
     = Inr funnel_idle \<and>
   0 + 1 < length funnel_idle \<and>
   nunique (map session_id (apply_time_filter clicks_revisit (Some (5, 6)))) = 0 \<and>
   funnel_row.Sessions (funnel_idle ! 0) = 0 \<and>
   Conversion_Rate_from_Start (funnel_idle ! 0) = Percent1 0 \<and>
   Drop_Rate_to_Next (funnel_idle ! (0 + 1)) = Percent1 0 \<and>
   bottleneck_entry FUNNEL_LABELS funnel_idle 0 = Inr (bottlenecks_idle_reversed ! 6) \<and>
   Drop_Rate_Numeric (bottlenecks_idle_reversed ! 6) = 0 \<and>
   device_entry clicks_revisit ''tablet'' =
     Inr \<lparr>Device = ''Tablet'', Total_Sessions = 0, device_row.Conversions = 0,
          device_row.Conversion_Rate = Percent1 0,
          device_row.Conversion_Rate_Numeric = 0\<rparr> \<and>
   traffic_entry clicks_revisit ''paid_search'' =
     Inr \<lparr>Traffic_Source = ''Paid Search'', traffic_row.Sessions = 0,
          traffic_row.Conversions = 0, traffic_row.Conversion_Rate = Percent1 0,
          traffic_row.Conversion_Rate_Numeric = 0\<rparr>"
proof -
  have h1: "generate_funnel_analysis_on FUNNEL_STAGES FUNNEL_LABELS clicks_revisit (Some (5, 6))
     = Inr funnel_idle"
    by code_simp
  have h2: "0 + 1 < length funnel_idle" by code_simp
  then have h2': "0 < length funnel_idle" by auto
  have h3: "nunique (map session_id (apply_time_filter clicks_revisit (Some (5, 6)))) = 0"
    by code_simp
  have h4: "funnel_row.Sessions (funnel_idle ! 0) = 0" by code_simp
  have h5: "bottleneck_entry FUNNEL_LABELS funnel_idle 0 = Inr (bottlenecks_idle_reversed ! 6)"
    by code_simp
  have h6: "device_entry clicks_revisit ''tablet'' =
     Inr \<lparr>Device = ''Tablet'', Total_Sessions = 0, device_row.Conversions = 0,
          device_row.Conversion_Rate = Percent1 0,
          device_row.Conversion_Rate_Numeric = 0\<rparr>"
    by code_simp
  have h7: "traffic_entry clicks_revisit ''paid_search'' =
     Inr \<lparr>Traffic_Source = ''Paid Search'', traffic_row.Sessions = 0,
          traffic_row.Conversions = 0, traffic_row.Conversion_Rate = Percent1 0,
          traffic_row.Conversion_Rate_Numeric = 0\<rparr>"
    by code_simp
  note t = zero_denominators_give_zero [where stages = FUNNEL_STAGES
      and labels = FUNNEL_LABELS and df = clicks_revisit and time_filter = "Some (5, 6)"
      and rows = funnel_idle and i = 0 and funnel_df = funnel_idle and k = 0
      and b = "bottlenecks_idle_reversed ! 6" and dev = "''tablet''"
      and source = "''paid_search''"
      and d = "\<lparr>Device = ''Tablet'', Total_Sessions = 0, device_row.Conversions = 0,
          device_row.Conversion_Rate = Percent1 0,
          device_row.Conversion_Rate_Numeric = 0\<rparr>"
      and t = "\<lparr>Traffic_Source = ''Paid Search'', traffic_row.Sessions = 0,
          traffic_row.Conversions = 0, traffic_row.Conversion_Rate = Percent1 0,
          traffic_row.Conversion_Rate_Numeric = 0\<rparr>"]
  from t h1 h2' h3 have c1: "Conversion_Rate_from_Start (funnel_idle ! 0) = Percent1 0"
    by blast
  from t h1 h2 h4 have c2: "Drop_Rate_to_Next (funnel_idle ! (0 + 1)) = Percent1 0"
    by blast
  from t h5 h4 have c3: "Drop_Rate_Numeric (bottlenecks_idle_reversed ! 6) = 0"
    by blast
  from h1 h2 h3 h4 h5 h6 h7 c1 c2 c3 show ?thesis by blast
qed

end
